theory Spec2Isabelle
  imports Main "HOL-Library.Multiset"
begin

section \<open>BitmapAnd nodes (src/backend/executor/nodeBitmapAnd.c)\<close>

text \<open>
  A shallow embedding of the interface routines of nodeBitmapAnd.c:
  \<^verbatim>\<open>ExecInitBitmapAnd\<close>, \<^verbatim>\<open>MultiExecBitmapAnd\<close> and \<^verbatim>\<open>ExecReScanBitmapAnd\<close>
  (\<^verbatim>\<open>ExecEndBitmapAnd\<close> only forwards to the children and is left out).

  Conventions of the embedding.
  \<^item> A \<^verbatim>\<open>TIDBitmap\<close> is the set of tuple identifiers it holds; lossy pages are not
    modelled. \<^verbatim>\<open>tbm_create\<close> gives the empty set, \<^verbatim>\<open>tbm_intersect(a, b)\<close> leaves
    \<open>a \<inter> b\<close> in \<open>a\<close>.
  \<^item> The array \<^verbatim>\<open>bitmapplans\<close> is a list, \<^verbatim>\<open>nplans\<close> a field beside it, as in the
    struct. The routines index the array below \<^verbatim>\<open>nplans\<close> only; where a theorem needs
    the array to have that many entries it takes \<open>nplans node = length (bitmapplans node)\<close>,
    which \<^verbatim>\<open>ExecInitBitmapAnd\<close> establishes.
  \<^item> The \<^verbatim>\<open>AdamScanClause\<close> of the plan is one object that the node and the scan
    states point to: clause objects live in a memory indexed by address, and a
    pointer is an address or \<open>None\<close> (NULL).
  \<^item> \<^verbatim>\<open>elog(ERROR, ...)\<close> ends the routine: the result is \<open>Inl\<close> of the error.
  \<^item> Routines of the executor that are not in this file (\<^verbatim>\<open>MultiExecProcNode\<close>,
    \<^verbatim>\<open>ExecInitNode\<close>, \<^verbatim>\<open>UpdateChangedParamSet\<close>, \<^verbatim>\<open>ExecReScan\<close>) and the constants \<^verbatim>\<open>VA_AM_OID\<close> and
    \<^verbatim>\<open>work_mem\<close> are parameters. A child's \<^verbatim>\<open>MultiExecProcNode\<close> reads its own scan
    state (with the bitmap handed to it in \<^verbatim>\<open>biss_result\<close>) and the clause memory. The
    bitmap that it hands back is either one of its own or the very bitmap that line 153
    stored in its \<^verbatim>\<open>biss_result\<close>, which it may have written; \<open>hands_back_biss_result\<close>
    tells which, and \<^verbatim>\<open>TIDBitmapNode\<close> carries the contents in both cases. A child that
    writes the accumulator and hands back another bitmap, or that writes the clause,
    is not modelled.
  \<^item> \<^verbatim>\<open>tbm_free\<close> has no visible effect. When the bitmap that line 196 frees is
    \<^verbatim>\<open>result\<close> itself, the C routine goes on to read it (lines 206 and 217); the model
    reads the contents it had.
  \<^item> The calls of \<^verbatim>\<open>MultiExecProcNode\<close> and \<^verbatim>\<open>ExecReScan\<close> are logged (the array index
    of each call, in order) in a field that the C code does not have.
  \<^item> Instrumentation (\<^verbatim>\<open>InstrStartNode\<close>, \<^verbatim>\<open>InstrStopNode\<close>) is left out.
\<close>

subsection \<open>Data\<close>

type_synonym Oid = nat
type_synonym addr = nat
type_synonym ItemPointer = nat
type_synonym TIDBitmap = "ItemPointer set"

text \<open>
  \<^verbatim>\<open>Bitmapset *\<close> of changed parameters: the executor keeps \<^verbatim>\<open>chgParam\<close> NULL exactly
  when the set has no member, so the pointer is the set it stands for and NULL is \<open>{}\<close>.
\<close>

type_synonym Bitmapset = "nat set"

datatype NodeTag = T_BitmapIndexScanState | T_BitmapAndState | T_BitmapOrState | T_OtherState

text \<open>What \<^verbatim>\<open>MultiExecProcNode\<close> hands back: a \<^verbatim>\<open>Node *\<close>.\<close>

datatype Node = NullNode | TIDBitmapNode TIDBitmap | OtherNode

datatype error = NoChildren | UnrecognizedResult | AssertFailed

record AdamScanClause =
  check_tid :: bool
  nn_limit :: int

record RelationData =
  relam :: Oid

text \<open>
  \<^verbatim>\<open>PlanState\<close> with the fields of \<^verbatim>\<open>BitmapIndexScanState\<close> that this file touches; they
  are read only when the tag says so. \<open>plan\<close> tells the children apart.
\<close>

record PlanState =
  nodeTag :: NodeTag
  plan :: nat
  chgParam :: Bitmapset
  biss_result :: "TIDBitmap option"
  biss_RelationDesc :: "RelationData option"
  adamScanClause :: "addr option"

record BitmapAndState =
  ps_chgParam :: Bitmapset
  adamPlanClause :: "addr option"
  bitmapplans :: "PlanState list"
  nplans :: nat
  limit :: int

text \<open>The parts of the executor that this file calls and does not define.\<close>

record externals =
  VA_AM_OID :: Oid
  work_mem :: int
  MultiExecProcNode :: "PlanState \<Rightarrow> (addr \<Rightarrow> AdamScanClause) \<Rightarrow> Node"
  hands_back_biss_result :: "PlanState \<Rightarrow> (addr \<Rightarrow> AdamScanClause) \<Rightarrow> bool"
  UpdateChangedParamSet :: "PlanState \<Rightarrow> Bitmapset \<Rightarrow> PlanState"
  ExecReScan :: "PlanState \<Rightarrow> PlanState"

text \<open>
  The variables of \<^verbatim>\<open>MultiExecBitmapAnd\<close>: the array, the clause memory, \<^verbatim>\<open>result\<close>
  (\<open>None\<close> is NULL), \<^verbatim>\<open>no_intersect\<close>, and the log of executed array indices.
\<close>

record exec_state =
  plans :: "PlanState list"
  clauses :: "addr \<Rightarrow> AdamScanClause"
  result :: "TIDBitmap option"
  no_intersect :: bool
  executed :: "nat list"

subsection \<open>The bitmap primitives\<close>

definition tbm_create :: "int \<Rightarrow> TIDBitmap" where
  "tbm_create maxbytes = {}"

definition tbm_intersect :: "TIDBitmap \<Rightarrow> TIDBitmap \<Rightarrow> TIDBitmap" where
  "tbm_intersect a b = a \<inter> b"

definition tbm_is_empty :: "TIDBitmap \<Rightarrow> bool" where
  "tbm_is_empty tbm = (tbm = {})"

subsection \<open>ExecInitBitmapAnd\<close>

text \<open>
  Modelled from the spec: the flag macros \<^verbatim>\<open>EXEC_FLAG_BACKWARD\<close> and \<^verbatim>\<open>EXEC_FLAG_MARK\<close>
  are not in this file; the spec (section 6) enumerates the flags as BackwardScan and
  MarkRestore. \<^verbatim>\<open>eflags\<close> is the set of flags that are on.
\<close>

datatype eflag = EXEC_FLAG_BACKWARD | EXEC_FLAG_MARK | EXEC_FLAG_OTHER nat

text \<open>
  The plan node \<^verbatim>\<open>BitmapAnd\<close>: the list of child plans, and the clause that the state
  reads later through \<^verbatim>\<open>ps.plan\<close>. \<^verbatim>\<open>makeNode\<close> gives a zeroed state, and the routine
  sets neither \<^verbatim>\<open>ps.chgParam\<close> nor \<^verbatim>\<open>limit\<close>: they are NULL and 0 when it returns.
  The assertion on the flags is a branch of its own.
\<close>

record 'p BitmapAnd =
  bitmapplans_plan :: "'p list"
  plan_adamPlanClause :: "addr option"

definition ExecInitBitmapAnd ::
  "('p \<Rightarrow> eflag set \<Rightarrow> PlanState) \<Rightarrow> 'p BitmapAnd \<Rightarrow> eflag set \<Rightarrow> error + BitmapAndState" where
  "ExecInitBitmapAnd ExecInitNode node eflags =
     (if eflags \<inter> {EXEC_FLAG_BACKWARD, EXEC_FLAG_MARK} \<noteq> {} then Inl AssertFailed
      else Inr \<lparr>ps_chgParam = {},
                adamPlanClause = plan_adamPlanClause node,
                bitmapplans = map (\<lambda>initNode. ExecInitNode initNode eflags) (bitmapplans_plan node),
                nplans = length (bitmapplans_plan node),
                limit = 0\<rparr>)"

subsection \<open>MultiExecBitmapAnd\<close>

text \<open>
  The test of lines 121-125 and 143-147: the child is a \<^verbatim>\<open>BitmapIndexScanState\<close> whose
  relation descriptor is there and whose access method is the VA index.
\<close>

definition is_adam_scan :: "externals \<Rightarrow> PlanState \<Rightarrow> bool" where
  "is_adam_scan ext subnode =
     (nodeTag subnode = T_BitmapIndexScanState \<and>
      (case biss_RelationDesc subnode of
         None \<Rightarrow> False
       | Some rd \<Rightarrow> relam rd = VA_AM_OID ext))"

text \<open>
  Lines 118-131: every ADAM scan found at an index other than the last is exchanged
  with the entry that is last at that moment.
\<close>

function reorder_loop :: "externals \<Rightarrow> nat \<Rightarrow> nat \<Rightarrow> PlanState list \<Rightarrow> PlanState list" where
  "reorder_loop ext n i bps =
     (if i < n then
        (let subnode = bps ! i in
         if is_adam_scan ext subnode \<and> i \<noteq> n - 1 then
           (let tmp = bps ! (n - 1) in
            reorder_loop ext n (Suc i) ((bps[n - 1 := bps ! i])[i := tmp]))
         else reorder_loop ext n (Suc i) bps)
      else bps)"
  by pat_completeness auto
termination
  by (relation "measure (\<lambda>(ext, n, i, bps). n - i)") auto

text \<open>
  Lines 143-184: what is done to an ADAM scan before it runs. The scan gets the
  accumulator (a new empty one when there is none) and the clause of the plan; when
  the plan has a clause, the clause is written and \<^verbatim>\<open>no_intersect\<close> is set.
\<close>

definition prepare_subplan :: "externals \<Rightarrow> BitmapAndState \<Rightarrow> nat \<Rightarrow> exec_state \<Rightarrow> exec_state" where
  "prepare_subplan ext node i st =
     (let st0 = st\<lparr>no_intersect := False\<rparr>;
          subnode = plans st0 ! i
      in if is_adam_scan ext subnode then
           (let result1 = (case result st0 of
                             None \<Rightarrow> tbm_create (work_mem ext * 1024)
                           | Some r \<Rightarrow> r);
                scanState = subnode\<lparr>biss_result := Some result1,
                                    adamScanClause := adamPlanClause node\<rparr>;
                st1 = st0\<lparr>result := Some result1, plans := (plans st0)[i := scanState]\<rparr>
            in case adamScanClause scanState of
                 None \<Rightarrow> st1
               | Some a \<Rightarrow>
                   (let c1 = (clauses st1 a)\<lparr>check_tid := True\<rparr>;
                        c2 = (if i \<noteq> 0 then c1\<lparr>nn_limit := limit node\<rparr>
                              else c1\<lparr>nn_limit := - 1, check_tid := False\<rparr>)
                    in st1\<lparr>clauses := (clauses st1)(a := c2), no_intersect := True\<rparr>))
         else st0)"

text \<open>
  Lines 191-197: the new contents of \<^verbatim>\<open>result\<close>. An ADAM scan was handed \<^verbatim>\<open>result\<close> in its
  \<^verbatim>\<open>biss_result\<close> (line 153); when it hands that bitmap back, \<^verbatim>\<open>result\<close> and \<^verbatim>\<open>subresult\<close>
  are one bitmap, with the contents that the child left in it, and line 195 intersects
  it with itself before line 196 frees it. A child that is not an ADAM scan was
  handed nothing by this routine, and its bitmap is taken to be another one than
  \<^verbatim>\<open>result\<close>.
\<close>

definition merge_subresult :: "externals \<Rightarrow> exec_state \<Rightarrow> nat \<Rightarrow> TIDBitmap \<Rightarrow> TIDBitmap" where
  "merge_subresult ext st1 i subresult =
     (case result st1 of
        None \<Rightarrow> subresult
      | Some acc \<Rightarrow>
          if no_intersect st1 then subresult
          else if is_adam_scan ext (plans st1 ! i) \<and>
                  hands_back_biss_result ext (plans st1 ! i) (clauses st1)
               then tbm_intersect subresult subresult
               else tbm_intersect acc subresult)"

text \<open>Lines 136-208: the loop over the children, from index \<open>i\<close> up to \<open>n\<close>.\<close>

function and_loop :: "externals \<Rightarrow> BitmapAndState \<Rightarrow> nat \<Rightarrow> nat \<Rightarrow> exec_state \<Rightarrow> error + exec_state" where
  "and_loop ext node n i st =
     (if i < n then
        (let st1 = prepare_subplan ext node i st in
         case MultiExecProcNode ext (plans st1 ! i) (clauses st1) of
           TIDBitmapNode subresult \<Rightarrow>
             (let r = merge_subresult ext st1 i subresult;
                  st2 = st1\<lparr>result := Some r, executed := executed st1 @ [i]\<rparr>
              in if tbm_is_empty r then Inr st2
                 else and_loop ext node n (Suc i) st2)
         | NullNode \<Rightarrow> Inl UnrecognizedResult
         | OtherNode \<Rightarrow> Inl UnrecognizedResult)
      else Inr st)"
  by pat_completeness auto
termination
  by (relation "measure (\<lambda>(ext, node, n, i, st). n - i)") auto

text \<open>The variables as they are when the second loop is entered.\<close>

definition start_state :: "PlanState list \<Rightarrow> (addr \<Rightarrow> AdamScanClause) \<Rightarrow> exec_state" where
  "start_state bps mem =
     \<lparr>plans = bps, clauses = mem, result = None, no_intersect = False, executed = []\<rparr>"

text \<open>
  The whole routine. It gives back the bitmap, the node with its array as the routine
  left it, the clause memory and the log of the children that were run.
\<close>

definition MultiExecBitmapAnd ::
  "externals \<Rightarrow> BitmapAndState \<Rightarrow> (addr \<Rightarrow> AdamScanClause) \<Rightarrow>
     error + (TIDBitmap \<times> BitmapAndState \<times> (addr \<Rightarrow> AdamScanClause) \<times> nat list)" where
  "MultiExecBitmapAnd ext node mem =
     (let bps = reorder_loop ext (nplans node) 0 (bitmapplans node);
          st = start_state bps mem
      in case and_loop ext node (nplans node) 0 st of
           Inl e \<Rightarrow> Inl e
         | Inr st' \<Rightarrow>
             (case result st' of
                None \<Rightarrow> Inl NoChildren
              | Some r \<Rightarrow> Inr (r, node\<lparr>bitmapplans := plans st'\<rparr>, clauses st', executed st')))"

subsection \<open>ExecReScanBitmapAnd\<close>

text \<open>
  Lines 264-265: the node's changed parameters are signalled to the child, when there
  are any.
\<close>

definition signal_chgParam :: "externals \<Rightarrow> BitmapAndState \<Rightarrow> PlanState \<Rightarrow> PlanState" where
  "signal_chgParam ext node subnode =
     (if ps_chgParam node \<noteq> {}
      then UpdateChangedParamSet ext subnode (ps_chgParam node)
      else subnode)"

text \<open>
  The loop of \<^verbatim>\<open>ExecReScanBitmapAnd\<close>, with the log of the indices that \<^verbatim>\<open>ExecReScan\<close>
  is called on.
\<close>

function rescan_loop ::
  "externals \<Rightarrow> BitmapAndState \<Rightarrow> nat \<Rightarrow> PlanState list \<Rightarrow> nat list \<Rightarrow> PlanState list \<times> nat list" where
  "rescan_loop ext node i bps rescanned =
     (if i < nplans node then
        (let subnode = signal_chgParam ext node (bps ! i)
         in if chgParam subnode = {}
            then rescan_loop ext node (Suc i) (bps[i := ExecReScan ext subnode]) (rescanned @ [i])
            else rescan_loop ext node (Suc i) (bps[i := subnode]) rescanned)
      else (bps, rescanned))"
  by pat_completeness auto
termination
  by (relation "measure (\<lambda>(ext, node, i, bps, rescanned). nplans node - i)") auto

definition ExecReScanBitmapAnd :: "externals \<Rightarrow> BitmapAndState \<Rightarrow> BitmapAndState \<times> nat list" where
  "ExecReScanBitmapAnd ext node =
     (case rescan_loop ext node 0 (bitmapplans node) [] of
        (bps, rescanned) \<Rightarrow> (node\<lparr>bitmapplans := bps\<rparr>, rescanned))"

text \<open>
  Modelled from the spec: \<^verbatim>\<open>UpdateChangedParamSet\<close> is not in this file; the spec
  (section 4.3) says that the node's pending changed-parameter set is merged into the
  child's pending set. The theorems hold for every \<^verbatim>\<open>UpdateChangedParamSet\<close>; this one
  is the instance they are evaluated at.
\<close>

definition merge_chgParam :: "PlanState \<Rightarrow> Bitmapset \<Rightarrow> PlanState" where
  "merge_chgParam subnode newchg = subnode\<lparr>chgParam := chgParam subnode \<union> newchg\<rparr>"

text \<open>
  The reordering as the spec words it (sections 4.1 and 9): the ADAM scan is moved to
  the end and the other children keep their relative order. It is compared with
  \<open>reorder_loop\<close> below.
\<close>

definition stable_move_last :: "externals \<Rightarrow> PlanState list \<Rightarrow> PlanState list" where
  "stable_move_last ext bps =
     filter (\<lambda>c. \<not> is_adam_scan ext c) bps @ filter (is_adam_scan ext) bps"

text \<open>
  One turn of the reordering loop (lines 119-130), by itself: an ADAM scan at an index
  other than the last is exchanged with the entry that is last.
\<close>

definition exchange_with_last :: "externals \<Rightarrow> nat \<Rightarrow> nat \<Rightarrow> PlanState list \<Rightarrow> PlanState list" where
  "exchange_with_last ext n i bps =
     (if is_adam_scan ext (bps ! i) \<and> i \<noteq> n - 1
      then (bps[n - 1 := bps ! i])[i := bps ! (n - 1)]
      else bps)"

text \<open>
  Two states of one child: they agree in every field but the two that lines 153 and
  156 write.
\<close>

definition same_child :: "PlanState \<Rightarrow> PlanState \<Rightarrow> bool" where
  "same_child c c' =
     (c'\<lparr>biss_result := None, adamScanClause := None\<rparr>
        = c\<lparr>biss_result := None, adamScanClause := None\<rparr>)"

subsection \<open>Concrete nodes\<close>

text \<open>
  Children, externals and nodes that the general theorems are evaluated at. A plain
  child is an index scan on a B-tree (access method 403); an ADAM child is an index
  scan on the VA index, whose access method is 4000 here.
\<close>

definition plain_child :: "nat \<Rightarrow> PlanState" where
  "plain_child k =
     \<lparr>nodeTag = T_BitmapIndexScanState, plan = k, chgParam = {}, biss_result = None,
      biss_RelationDesc = Some \<lparr>relam = 403\<rparr>, adamScanClause = None\<rparr>"

definition adam_child :: "nat \<Rightarrow> PlanState" where
  "adam_child k =
     \<lparr>nodeTag = T_BitmapIndexScanState, plan = k, chgParam = {}, biss_result = None,
      biss_RelationDesc = Some \<lparr>relam = 4000\<rparr>, adamScanClause = None\<rparr>"

text \<open>
  The outputs of the children, by plan number: 0 and 6 are used for ADAM scans; 1 and
  2 are the plain children of scenario 1 of the spec, 3 has no tuple, 4 is the plain
  child of scenario 3; 5 hands back a node that is not a bitmap and every other
  child NULL.
\<close>

definition example_outs :: "nat \<Rightarrow> Node" where
  "example_outs k =
     (if k = 0 then TIDBitmapNode {4, 8}
      else if k = 1 then TIDBitmapNode {1, 3, 5, 7}
      else if k = 2 then TIDBitmapNode {3, 5, 9}
      else if k = 3 then TIDBitmapNode {}
      else if k = 4 then TIDBitmapNode {2, 4, 6}
      else if k = 5 then OtherNode
      else if k = 6 then TIDBitmapNode {4, 6}
      else NullNode)"

definition example_ext :: externals where
  "example_ext =
     \<lparr>VA_AM_OID = 4000, work_mem = 1024,
      MultiExecProcNode = (\<lambda>subnode mem. example_outs (plan subnode)),
      hands_back_biss_result = (\<lambda>subnode mem. False),
      UpdateChangedParamSet = merge_chgParam,
      ExecReScan = (\<lambda>subnode. subnode\<lparr>chgParam := {}\<rparr>)\<rparr>"

definition example_node :: "PlanState list \<Rightarrow> BitmapAndState" where
  "example_node bps =
     \<lparr>ps_chgParam = {}, adamPlanClause = Some 7, bitmapplans = bps, nplans = length bps,
      limit = 10\<rparr>"

definition example_mem :: "addr \<Rightarrow> AdamScanClause" where
  "example_mem a = \<lparr>check_tid = False, nn_limit = 0\<rparr>"


section \<open>Properties\<close>

declare reorder_loop.simps [simp del] and_loop.simps [simp del] rescan_loop.simps [simp del]

text \<open>The equations that evaluate a run on the concrete nodes.\<close>

lemmas example_defs = example_ext_def example_outs_def example_node_def plain_child_def
  adam_child_def example_mem_def is_adam_scan_def

lemmas run_defs = MultiExecBitmapAnd_def start_state_def reorder_loop.simps and_loop.simps
  prepare_subplan_def merge_subresult_def Let_def tbm_create_def tbm_intersect_def
  tbm_is_empty_def

subsection \<open>The reordering loop\<close>

lemma reorder_loop_length [simp]: "length (reorder_loop ext n i bps) = length bps"
  by (induction ext n i bps rule: reorder_loop.induct) (subst reorder_loop.simps, simp add: Let_def)

lemma reorder_loop_unchanged:
  "(\<And>j. i \<le> j \<Longrightarrow> Suc j < n \<Longrightarrow> \<not> is_adam_scan ext (bps ! j)) \<Longrightarrow> reorder_loop ext n i bps = bps"
proof (induction ext n i bps rule: reorder_loop.induct)
  case (1 ext n i bps)
  show ?case
  proof (cases "i < n")
    case False
    then show ?thesis by (subst reorder_loop.simps) simp
  next
    case True
    have noswap: "\<not> (is_adam_scan ext (bps ! i) \<and> i \<noteq> n - 1)"
      using "1.prems"[of i] True by (cases "Suc i < n") auto
    have "reorder_loop ext n (Suc i) bps = bps"
      using "1.IH"(2)[OF True refl noswap] "1.prems" by simp
    then show ?thesis using True noswap by (subst reorder_loop.simps) (simp add: Let_def)
  qed
qed

text \<open>
  With one ADAM scan, at \<open>p\<close>, the loop started at or before \<open>p\<close> exchanges the entries
  at \<open>p\<close> and at \<open>n - 1\<close> and does nothing else.
\<close>

lemma reorder_loop_one:
  assumes "n = length bps" "p < n" "i \<le> p" "is_adam_scan ext (bps ! p)"
    "\<And>j. j < n \<Longrightarrow> j \<noteq> p \<Longrightarrow> \<not> is_adam_scan ext (bps ! j)"
  shows "reorder_loop ext n i bps = (bps[n - 1 := bps ! p])[p := bps ! (n - 1)]"
  using assms
proof (induction "p - i" arbitrary: i)
  case 0
  then have ip: "i = p" by simp
  show ?case
  proof (cases "p = n - 1")
    case True
    have "reorder_loop ext n i bps = bps"
      by (rule reorder_loop_unchanged) (use 0 True in auto)
    then show ?thesis using True by simp
  next
    case False
    let ?bps' = "(bps[n - 1 := bps ! p])[p := bps ! (n - 1)]"
    have "reorder_loop ext n (Suc p) ?bps' = ?bps'"
    proof (rule reorder_loop_unchanged)
      fix j assume "Suc p \<le> j" "Suc j < n"
      then show "\<not> is_adam_scan ext (?bps' ! j)"
        using 0 by (simp add: nth_list_update)
    qed
    then show ?thesis using 0 False ip
      by (subst reorder_loop.simps) (simp add: Let_def)
  qed
next
  case (Suc d)
  then have lt: "i < p" by simp
  have "\<not> is_adam_scan ext (bps ! i)" using Suc.prems lt by simp
  moreover have "reorder_loop ext n (Suc i) bps = (bps[n - 1 := bps ! p])[p := bps ! (n - 1)]"
    using Suc.hyps(1)[of "Suc i"] Suc.hyps(2) Suc.prems lt by simp
  ultimately show ?case using lt Suc.prems by (subst reorder_loop.simps) (simp add: Let_def)
qed

text \<open>
  The reordering loop with any number of ADAM scans: it is the turns of
  \<open>exchange_with_last\<close> one after the other, it permutes the array, and it leaves an
  ADAM scan in the last slot when there is one anywhere.
\<close>

lemma reorder_loop_fold:
  "reorder_loop ext n i bps = fold (exchange_with_last ext n) [i..<n] bps"
proof (induction ext n i bps rule: reorder_loop.induct)
  case (1 ext n i bps)
  show ?case
  proof (cases "i < n")
    case False
    then show ?thesis by (subst reorder_loop.simps) simp
  next
    case True
    then have upt: "[i..<n] = i # [Suc i..<n]" by (simp add: upt_conv_Cons)
    show ?thesis
    proof (cases "is_adam_scan ext (bps ! i) \<and> i \<noteq> n - 1")
      case swap: True
      have "reorder_loop ext n (Suc i) ((bps[n - 1 := bps ! i])[i := bps ! (n - 1)])
              = fold (exchange_with_last ext n) [Suc i..<n] ((bps[n - 1 := bps ! i])[i := bps ! (n - 1)])"
        using "1.IH"(1)[OF True refl swap refl] .
      then show ?thesis using True swap
        by (subst reorder_loop.simps) (simp add: upt Let_def exchange_with_last_def)
    next
      case noswap: False
      have "reorder_loop ext n (Suc i) bps = fold (exchange_with_last ext n) [Suc i..<n] bps"
        using "1.IH"(2)[OF True refl noswap] .
      then show ?thesis using True noswap
        by (subst reorder_loop.simps) (simp add: upt Let_def exchange_with_last_def)
    qed
  qed
qed

lemma exchange_with_last_mset:
  "n = length bps \<Longrightarrow> i < n \<Longrightarrow> mset (exchange_with_last ext n i bps) = mset bps"
  by (simp add: exchange_with_last_def mset_swap)

lemma exchange_with_last_length [simp]:
  "length (exchange_with_last ext n i bps) = length bps"
  by (simp add: exchange_with_last_def)

lemma reorder_loop_mset:
  "n = length bps \<Longrightarrow> mset (reorder_loop ext n i bps) = mset bps"
proof (induction ext n i bps rule: reorder_loop.induct)
  case (1 ext n i bps)
  show ?case
  proof (cases "i < n")
    case False
    then show ?thesis by (subst reorder_loop.simps) simp
  next
    case True
    show ?thesis
    proof (cases "is_adam_scan ext (bps ! i) \<and> i \<noteq> n - 1")
      case swap: True
      let ?bps' = "(bps[n - 1 := bps ! i])[i := bps ! (n - 1)]"
      have "mset (reorder_loop ext n (Suc i) ?bps') = mset ?bps'"
        using "1.IH"(1)[OF True refl swap refl] "1.prems" by simp
      moreover have "mset ?bps' = mset bps"
        using True "1.prems" by (simp add: mset_swap)
      ultimately show ?thesis using True swap
        by (subst reorder_loop.simps) (simp add: Let_def)
    next
      case noswap: False
      have "mset (reorder_loop ext n (Suc i) bps) = mset bps"
        using "1.IH"(2)[OF True refl noswap] "1.prems" by simp
      then show ?thesis using True noswap
        by (subst reorder_loop.simps) (simp add: Let_def)
    qed
  qed
qed

lemma reorder_loop_adam_last:
  assumes "n = length bps"
    "(\<exists>j. i \<le> j \<and> j < n \<and> is_adam_scan ext (bps ! j)) \<or> (0 < n \<and> is_adam_scan ext (bps ! (n - 1)))"
  shows "0 < n \<and> is_adam_scan ext (reorder_loop ext n i bps ! (n - 1))"
  using assms
proof (induction ext n i bps rule: reorder_loop.induct)
  case (1 ext n i bps)
  show ?case
  proof (cases "i < n")
    case False
    then have "0 < n \<and> is_adam_scan ext (bps ! (n - 1))" using "1.prems"(2) by auto
    then show ?thesis using False by (subst reorder_loop.simps) simp
  next
    case True
    show ?thesis
    proof (cases "is_adam_scan ext (bps ! i) \<and> i \<noteq> n - 1")
      case swap: True
      let ?bps' = "(bps[n - 1 := bps ! i])[i := bps ! (n - 1)]"
      have "?bps' ! (n - 1) = bps ! i"
        using True swap "1.prems"(1) by (simp add: nth_list_update)
      then have "0 < n \<and> is_adam_scan ext (?bps' ! (n - 1))" using swap True by simp
      then have "0 < n \<and> is_adam_scan ext (reorder_loop ext n (Suc i) ?bps' ! (n - 1))"
        using "1.IH"(1)[OF True refl swap refl] "1.prems"(1) by simp
      then show ?thesis using True swap
        by (subst reorder_loop.simps) (simp add: Let_def)
    next
      case noswap: False
      have "(\<exists>j. Suc i \<le> j \<and> j < n \<and> is_adam_scan ext (bps ! j)) \<or>
            (0 < n \<and> is_adam_scan ext (bps ! (n - 1)))"
      proof (cases "0 < n \<and> is_adam_scan ext (bps ! (n - 1))")
        case True
        then show ?thesis by simp
      next
        case False
        then obtain j where j: "i \<le> j" "j < n" "is_adam_scan ext (bps ! j)"
          using "1.prems"(2) by auto
        have "j \<noteq> i" using j noswap False \<open>i < n\<close> by auto
        then have "Suc i \<le> j" using j(1) by simp
        then show ?thesis using j by blast
      qed
      then have "0 < n \<and> is_adam_scan ext (reorder_loop ext n (Suc i) bps ! (n - 1))"
        using "1.IH"(2)[OF True refl noswap] "1.prems"(1) by simp
      moreover have "reorder_loop ext n i bps = reorder_loop ext n (Suc i) bps"
        using True noswap by (subst reorder_loop.simps) (auto simp: Let_def)
      ultimately show ?thesis by simp
    qed
  qed
qed

lemma is_adam_scan_plain_child [simp]: "\<not> is_adam_scan example_ext (plain_child k)"
  by (simp add: is_adam_scan_def example_ext_def plain_child_def)

lemma is_adam_scan_adam_child [simp]: "is_adam_scan example_ext (adam_child k)"
  by (simp add: is_adam_scan_def example_ext_def adam_child_def)

text \<open>
  Claim C4, as the code has it. The claim says that the reordering pass moves the one
  ADAM scan to the end and leaves the other children in their relative order. The
  loop exchanges instead: with exactly one ADAM scan, at index \<open>p\<close>, the pass gives the
  array with the entries at \<open>p\<close> and at the last index exchanged; every other child
  stays at its index.
\<close>

theorem reorder_swaps_probe_with_last:
  assumes "p < length bps" "is_adam_scan ext (bps ! p)"
    "\<forall>j<length bps. j \<noteq> p \<longrightarrow> \<not> is_adam_scan ext (bps ! j)"
  shows "reorder_loop ext (length bps) 0 bps
           = (bps[length bps - 1 := bps ! p])[p := bps ! (length bps - 1)]"
  using assms by (intro reorder_loop_one) auto

theorem reorder_swaps_probe_with_last_witness:
  "reorder_loop example_ext 3 0 [plain_child 1, adam_child 0, plain_child 2]
     = [plain_child 1, plain_child 2, adam_child 0]"
  using reorder_swaps_probe_with_last
          [of 1 "[plain_child 1, adam_child 0, plain_child 2]" example_ext]
  by (simp add: less_Suc_eq eval_nat_numeral)

text \<open>
  Claim C4 as stated fails: from [ADAM scan 0, plain 1, plain 2] the loop gives
  [plain 2, plain 1, ADAM scan 0], where the two plain children have changed places;
  the stable move gives [plain 1, plain 2, ADAM scan 0].
\<close>

theorem reorder_not_stable_counterexample:
  "reorder_loop example_ext 3 0 [adam_child 0, plain_child 1, plain_child 2]
     = [plain_child 2, plain_child 1, adam_child 0] \<and>
   stable_move_last example_ext [adam_child 0, plain_child 1, plain_child 2]
     = [plain_child 1, plain_child 2, adam_child 0] \<and>
   reorder_loop example_ext 3 0 [adam_child 0, plain_child 1, plain_child 2]
     \<noteq> stable_move_last example_ext [adam_child 0, plain_child 1, plain_child 2]"
  by (simp add: reorder_loop.simps stable_move_last_def Let_def plain_child_def adam_child_def
        is_adam_scan_def example_ext_def)

text \<open>
  Claim C5. For every array of more than one child with exactly one ADAM scan, at any
  index \<open>p\<close>, the reordering pass leaves that scan in the last slot; when it is last
  already the pass changes nothing; and running the pass twice gives what running it
  once gives.
\<close>

theorem reorder_probe_last_idempotent:
  assumes "1 < length bps" "p < length bps" "is_adam_scan ext (bps ! p)"
    "\<forall>j<length bps. j \<noteq> p \<longrightarrow> \<not> is_adam_scan ext (bps ! j)"
  shows "reorder_loop ext (length bps) 0 bps ! (length bps - 1) = bps ! p \<and>
         is_adam_scan ext (last (reorder_loop ext (length bps) 0 bps)) \<and>
         (p = length bps - 1 \<longrightarrow> reorder_loop ext (length bps) 0 bps = bps) \<and>
         reorder_loop ext (length bps) 0 (reorder_loop ext (length bps) 0 bps)
           = reorder_loop ext (length bps) 0 bps"
proof -
  let ?n = "length bps"
  let ?bps' = "(bps[?n - 1 := bps ! p])[p := bps ! (?n - 1)]"
  have eq: "reorder_loop ext ?n 0 bps = ?bps'"
    using assms by (intro reorder_loop_one) auto
  have at_last: "?bps' ! (?n - 1) = bps ! p"
    using assms(2) by (cases "p = ?n - 1") (simp_all add: nth_list_update)
  have ne: "?bps' \<noteq> []" using assms(2) by auto
  have last: "last ?bps' = bps ! p"
    using at_last ne by (simp add: last_conv_nth)
  have fixed: "p = ?n - 1 \<longrightarrow> ?bps' = bps" by simp
  have idem: "reorder_loop ext ?n 0 ?bps' = ?bps'"
  proof (rule reorder_loop_unchanged)
    fix j assume "0 \<le> j" "Suc j < ?n"
    then show "\<not> is_adam_scan ext (?bps' ! j)"
      using assms by (cases "j = p") (simp_all add: nth_list_update)
  qed
  show ?thesis using eq at_last last fixed idem assms(3) by simp
qed

theorem reorder_probe_last_idempotent_witness:
  "reorder_loop example_ext 3 0 [adam_child 0, plain_child 1, plain_child 2] ! 2
     = adam_child 0 \<and>
   reorder_loop example_ext 3 0
     (reorder_loop example_ext 3 0 [adam_child 0, plain_child 1, plain_child 2])
    = reorder_loop example_ext 3 0 [adam_child 0, plain_child 1, plain_child 2]"
  using reorder_probe_last_idempotent
          [of "[adam_child 0, plain_child 1, plain_child 2]" 0 example_ext]
  by (simp add: less_Suc_eq eval_nat_numeral)

subsection \<open>The loop over the children\<close>

lemma prepare_subplan_plain:
  "\<not> is_adam_scan ext (plans st ! i) \<Longrightarrow> prepare_subplan ext node i st = st\<lparr>no_intersect := False\<rparr>"
  by (simp add: prepare_subplan_def Let_def)

lemma and_loop_done: "\<not> i < n \<Longrightarrow> and_loop ext node n i st = Inr st"
  by (subst and_loop.simps) simp

lemma prepare_subplan_executed [simp]: "executed (prepare_subplan ext node i st) = executed st"
  by (simp add: prepare_subplan_def Let_def split: option.split)

text \<open>One turn of the loop, when the child hands back a bitmap and when it does not.\<close>

lemma and_loop_step:
  assumes "i < n"
    "MultiExecProcNode ext (plans (prepare_subplan ext node i st) ! i)
       (clauses (prepare_subplan ext node i st)) = TIDBitmapNode S"
  shows "and_loop ext node n i st =
     (let st1 = prepare_subplan ext node i st;
          r = merge_subresult ext st1 i S;
          st2 = st1\<lparr>result := Some r, executed := executed st1 @ [i]\<rparr>
      in if tbm_is_empty r then Inr st2 else and_loop ext node n (Suc i) st2)"
  using assms by (subst and_loop.simps) (simp add: Let_def)

lemma and_loop_step_bad:
  assumes "i < n"
    "\<forall>S. MultiExecProcNode ext (plans (prepare_subplan ext node i st) ! i)
       (clauses (prepare_subplan ext node i st)) \<noteq> TIDBitmapNode S"
  shows "and_loop ext node n i st = Inl UnrecognizedResult"
  using assms by (subst and_loop.simps) (simp add: Let_def split: Node.split)

text \<open>
  A run that has ended with an empty accumulator within the first \<open>m\<close> children is the
  run over all \<open>n\<close> children.
\<close>

lemma and_loop_break_stable:
  assumes "and_loop ext node m i st = Inr st'" "result st' = Some {}" "i < m" "m \<le> n"
  shows "and_loop ext node n i st = Inr st'"
  using assms
proof (induction "m - i" arbitrary: i st)
  case 0
  then show ?case by simp
next
  case (Suc d)
  let ?st1 = "prepare_subplan ext node i st"
  show ?case
  proof (cases "\<exists>S. MultiExecProcNode ext (plans ?st1 ! i) (clauses ?st1) = TIDBitmapNode S")
    case False
    then have "and_loop ext node m i st = Inl UnrecognizedResult"
      using and_loop_step_bad Suc.prems by simp
    then show ?thesis using Suc.prems by simp
  next
    case True
    then obtain S where S: "MultiExecProcNode ext (plans ?st1 ! i) (clauses ?st1) = TIDBitmapNode S" ..
    let ?r = "merge_subresult ext ?st1 i S"
    let ?st2 = "?st1\<lparr>result := Some ?r, executed := executed ?st1 @ [i]\<rparr>"
    have m: "and_loop ext node m i st
               = (if tbm_is_empty ?r then Inr ?st2 else and_loop ext node m (Suc i) ?st2)"
      using and_loop_step[OF \<open>i < m\<close> S] by (simp add: Let_def)
    have n: "and_loop ext node n i st
               = (if tbm_is_empty ?r then Inr ?st2 else and_loop ext node n (Suc i) ?st2)"
      using and_loop_step[OF _ S, of n] Suc.prems by (simp add: Let_def)
    show ?thesis
    proof (cases "tbm_is_empty ?r")
      case True
      then show ?thesis using m n Suc.prems by simp
    next
      case False
      then have rec: "and_loop ext node m (Suc i) ?st2 = Inr st'" using m Suc.prems by simp
      show ?thesis
      proof (cases "Suc i < m")
        case True
        then have "and_loop ext node n (Suc i) ?st2 = Inr st'"
          using Suc.hyps(1)[of "Suc i" ?st2] Suc.hyps(2) rec Suc.prems by simp
        then show ?thesis using n False by simp
      next
        case F: False
        then have "st' = ?st2" using rec by (subst (asm) and_loop.simps) simp
        then show ?thesis using Suc.prems(2) False by (simp add: tbm_is_empty_def)
      qed
    qed
  qed
qed

text \<open>
  A run over the first \<open>k\<close> children that did not end with an empty accumulator went
  through all of them, and the run over \<open>n\<close> children goes on from there.
\<close>

lemma and_loop_split:
  assumes "and_loop ext node k i st = Inr st'" "result st' \<noteq> Some {}" "i \<le> k" "k \<le> n"
  shows "and_loop ext node n i st = and_loop ext node n k st'"
  using assms
proof (induction "k - i" arbitrary: i st)
  case 0
  then have "i = k" by simp
  then have "st' = st" using 0 by (subst (asm) and_loop.simps) simp
  then show ?case using \<open>i = k\<close> by simp
next
  case (Suc d)
  then have ik: "i < k" by simp
  let ?st1 = "prepare_subplan ext node i st"
  show ?case
  proof (cases "\<exists>S. MultiExecProcNode ext (plans ?st1 ! i) (clauses ?st1) = TIDBitmapNode S")
    case False
    then have "and_loop ext node k i st = Inl UnrecognizedResult"
      using and_loop_step_bad ik by simp
    then show ?thesis using Suc.prems by simp
  next
    case True
    then obtain S where S: "MultiExecProcNode ext (plans ?st1 ! i) (clauses ?st1) = TIDBitmapNode S" ..
    let ?r = "merge_subresult ext ?st1 i S"
    let ?st2 = "?st1\<lparr>result := Some ?r, executed := executed ?st1 @ [i]\<rparr>"
    have k: "and_loop ext node k i st
               = (if tbm_is_empty ?r then Inr ?st2 else and_loop ext node k (Suc i) ?st2)"
      using and_loop_step[OF ik S] by (simp add: Let_def)
    have n: "and_loop ext node n i st
               = (if tbm_is_empty ?r then Inr ?st2 else and_loop ext node n (Suc i) ?st2)"
      using and_loop_step[OF _ S, of n] Suc.prems ik by (simp add: Let_def)
    show ?thesis
    proof (cases "tbm_is_empty ?r")
      case True
      then have "st' = ?st2" using k Suc.prems by simp
      then show ?thesis using Suc.prems(2) True by (simp add: tbm_is_empty_def)
    next
      case False
      then have rec: "and_loop ext node k (Suc i) ?st2 = Inr st'" using k Suc.prems by simp
      have "and_loop ext node n (Suc i) ?st2 = and_loop ext node n k st'"
        using Suc.hyps(1)[of "Suc i" ?st2] Suc.hyps(2) rec Suc.prems ik by simp
      then show ?thesis using n False by simp
    qed
  qed
qed

text \<open>
  The log of a run is the indices from \<open>i\<close> up to where it stopped, and a run that made
  a turn has an accumulator.
\<close>

lemma and_loop_executed:
  assumes "and_loop ext node n i st = Inr st'"
  shows "\<exists>m. i \<le> m \<and> (i < n \<longrightarrow> i < m \<and> m \<le> n) \<and> executed st' = executed st @ [i..<m]
           \<and> (i < n \<longrightarrow> result st' \<noteq> None)"
  using assms
proof (induction "n - i" arbitrary: i st)
  case 0
  then have "st' = st" by (subst (asm) and_loop.simps) simp
  then show ?case using 0 by (intro exI[of _ i]) simp
next
  case (Suc d)
  then have lt: "i < n" by simp
  let ?st1 = "prepare_subplan ext node i st"
  show ?case
  proof (cases "\<exists>S. MultiExecProcNode ext (plans ?st1 ! i) (clauses ?st1) = TIDBitmapNode S")
    case False
    then have "and_loop ext node n i st = Inl UnrecognizedResult"
      using and_loop_step_bad lt by simp
    then show ?thesis using Suc.prems by simp
  next
    case True
    then obtain S where S: "MultiExecProcNode ext (plans ?st1 ! i) (clauses ?st1) = TIDBitmapNode S" ..
    let ?r = "merge_subresult ext ?st1 i S"
    let ?st2 = "?st1\<lparr>result := Some ?r, executed := executed ?st1 @ [i]\<rparr>"
    have n: "and_loop ext node n i st
               = (if tbm_is_empty ?r then Inr ?st2 else and_loop ext node n (Suc i) ?st2)"
      using and_loop_step[OF lt S] by (simp add: Let_def)
    show ?thesis
    proof (cases "tbm_is_empty ?r")
      case True
      then have "st' = ?st2" using n Suc.prems by simp
      then show ?thesis using lt by (intro exI[of _ "Suc i"]) simp
    next
      case False
      then have rec: "and_loop ext node n (Suc i) ?st2 = Inr st'" using n Suc.prems by simp
      show ?thesis
      proof (cases "Suc i < n")
        case True
        have d: "d = n - Suc i" using Suc.hyps(2) by simp
        obtain m where m: "Suc i \<le> m" "Suc i < m \<and> m \<le> n"
          "executed st' = executed ?st2 @ [Suc i..<m]" "result st' \<noteq> None"
          using Suc.hyps(1)[OF d rec] True by auto
        have "[i..<m] = i # [Suc i..<m]" using m(1) by (simp add: upt_conv_Cons)
        then show ?thesis using m lt by (intro exI[of _ m]) simp
      next
        case F: False
        then have "st' = ?st2" using rec by (subst (asm) and_loop.simps) simp
        then show ?thesis using lt by (intro exI[of _ "Suc i"]) simp
      qed
    qed
  qed
qed

lemma and_loop_error: "and_loop ext node n i st = Inl e \<Longrightarrow> e = UnrecognizedResult"
proof (induction "n - i" arbitrary: i st)
  case 0
  then show ?case by (subst (asm) and_loop.simps) simp
next
  case (Suc d)
  then have lt: "i < n" by simp
  let ?st1 = "prepare_subplan ext node i st"
  show ?case
  proof (cases "\<exists>S. MultiExecProcNode ext (plans ?st1 ! i) (clauses ?st1) = TIDBitmapNode S")
    case False
    then have "and_loop ext node n i st = Inl UnrecognizedResult"
      using and_loop_step_bad lt by simp
    then show ?thesis using Suc.prems by simp
  next
    case True
    then obtain S where S: "MultiExecProcNode ext (plans ?st1 ! i) (clauses ?st1) = TIDBitmapNode S" ..
    let ?r = "merge_subresult ext ?st1 i S"
    let ?st2 = "?st1\<lparr>result := Some ?r, executed := executed ?st1 @ [i]\<rparr>"
    have n: "and_loop ext node n i st
               = (if tbm_is_empty ?r then Inr ?st2 else and_loop ext node n (Suc i) ?st2)"
      using and_loop_step[OF lt S] by (simp add: Let_def)
    show ?thesis
    proof (cases "tbm_is_empty ?r")
      case True
      then show ?thesis using n Suc.prems by simp
    next
      case False
      then have "and_loop ext node n (Suc i) ?st2 = Inl e" using n Suc.prems by simp
      then show ?thesis using Suc.hyps(1)[of "Suc i" ?st2] Suc.hyps(2) by simp
    qed
  qed
qed

lemma and_loop_total:
  assumes "\<And>c m. \<exists>S. MultiExecProcNode ext c m = TIDBitmapNode S"
  shows "\<exists>st'. and_loop ext node n i st = Inr st'"
proof (induction "n - i" arbitrary: i st)
  case 0
  then show ?case by (subst and_loop.simps) simp
next
  case (Suc d)
  then have lt: "i < n" by simp
  let ?st1 = "prepare_subplan ext node i st"
  obtain S where S: "MultiExecProcNode ext (plans ?st1 ! i) (clauses ?st1) = TIDBitmapNode S"
    using assms by blast
  let ?r = "merge_subresult ext ?st1 i S"
  let ?st2 = "?st1\<lparr>result := Some ?r, executed := executed ?st1 @ [i]\<rparr>"
  have n: "and_loop ext node n i st
             = (if tbm_is_empty ?r then Inr ?st2 else and_loop ext node n (Suc i) ?st2)"
    using and_loop_step[OF lt S] by (simp add: Let_def)
  show ?case
  proof (cases "tbm_is_empty ?r")
    case True
    then show ?thesis using n by simp
  next
    case False
    then show ?thesis using n Suc.hyps(1)[of "Suc i" ?st2] Suc.hyps(2) by simp
  qed
qed

lemma and_loop_plain_step:
  assumes "i < n" "\<not> is_adam_scan ext (plans st ! i)"
    "MultiExecProcNode ext (plans st ! i) (clauses st) = TIDBitmapNode S"
  shows "and_loop ext node n i st =
     (let r = (case result st of None \<Rightarrow> S | Some acc \<Rightarrow> acc \<inter> S);
          st2 = st\<lparr>no_intersect := False, result := Some r, executed := executed st @ [i]\<rparr>
      in if r = {} then Inr st2 else and_loop ext node n (Suc i) st2)"
  using assms
  by (subst and_loop.simps)
     (simp add: prepare_subplan_plain Let_def merge_subresult_def tbm_intersect_def
           tbm_is_empty_def cong: option.case_cong)

text \<open>
  Over plain children the loop ends with the accumulator it started from (everything,
  when there was none) cut with the outputs of all the children from \<open>i\<close> on.
\<close>

lemma and_loop_plain:
  assumes "\<And>j. j < n \<Longrightarrow> \<not> is_adam_scan ext (bps ! j)"
    "\<And>j. j < n \<Longrightarrow> MultiExecProcNode ext (bps ! j) mem = TIDBitmapNode (S j)"
    "plans st = bps" "clauses st = mem" "i < n"
  shows "\<exists>st'. and_loop ext node n i st = Inr st' \<and> plans st' = bps \<and> clauses st' = mem \<and>
           result st' = Some ((case result st of None \<Rightarrow> UNIV | Some acc \<Rightarrow> acc)
                              \<inter> (\<Inter>j\<in>{i..<n}. S j))"
  using assms(3-)
proof (induction "n - i" arbitrary: i st)
  case 0
  then show ?case by simp
next
  case (Suc d)
  let ?A = "(case result st of None \<Rightarrow> UNIV | Some acc \<Rightarrow> acc)"
  let ?r = "(case result st of None \<Rightarrow> S i | Some acc \<Rightarrow> acc \<inter> S i)"
  let ?st2 = "st\<lparr>no_intersect := False, result := Some ?r, executed := executed st @ [i]\<rparr>"
  have r: "?r = ?A \<inter> S i" by (simp split: option.split)
  have split: "{i..<n} = insert i {Suc i..<n}" using Suc.prems by auto
  have step: "and_loop ext node n i st
                = (if ?r = {} then Inr ?st2 else and_loop ext node n (Suc i) ?st2)"
    using and_loop_plain_step[of i n ext st "S i" node] Suc.prems assms(1,2)
    by (simp add: Let_def)
  show ?case
  proof (cases "?r = {}")
    case True
    have "?A \<inter> (\<Inter>j\<in>{i..<n}. S j) = {}" using True r split by auto
    then show ?thesis using step True Suc.prems by simp
  next
    case False
    show ?thesis
    proof (cases "Suc i < n")
      case True
      have "\<exists>st'. and_loop ext node n (Suc i) ?st2 = Inr st' \<and> plans st' = bps \<and>
              clauses st' = mem \<and>
              result st' = Some ((case result ?st2 of None \<Rightarrow> UNIV | Some acc \<Rightarrow> acc)
                                 \<inter> (\<Inter>j\<in>{Suc i..<n}. S j))"
        using Suc.hyps(1)[of "Suc i" ?st2] Suc.hyps(2) Suc.prems True by simp
      moreover have "?r \<inter> (\<Inter>j\<in>{Suc i..<n}. S j) = ?A \<inter> (\<Inter>j\<in>{i..<n}. S j)"
        using r split by auto
      ultimately show ?thesis using step False by simp
    next
      case F2: False
      then have "{i..<n} = {i}" using Suc.prems by auto
      then have "?A \<inter> (\<Inter>j\<in>{i..<n}. S j) = ?r" using r by simp
      then show ?thesis using step False F2 Suc.prems by (simp add: and_loop_done)
    qed
  qed
qed

text \<open>
  Claim C2. For every node with \<open>n \<ge> 1\<close> children none of which is an ADAM scan, whose
  executions give the bitmaps \<open>S 0\<close>, ..., \<open>S (n - 1)\<close>, \<^verbatim>\<open>MultiExecBitmapAnd\<close> returns
  the intersection of all of them (the children after an empty intermediate result are
  not run, and the value is the intersection all the same); the array and the clause
  memory are as before.
\<close>

theorem plain_children_intersection:
  assumes "nplans node = length (bitmapplans node)" "0 < nplans node"
    "\<forall>j<nplans node. \<not> is_adam_scan ext (bitmapplans node ! j)"
    "\<forall>j<nplans node. MultiExecProcNode ext (bitmapplans node ! j) mem = TIDBitmapNode (S j)"
  shows "\<exists>log. MultiExecBitmapAnd ext node mem
                 = Inr (\<Inter>j\<in>{..<nplans node}. S j, node, mem, log)"
proof -
  let ?n = "nplans node"
  let ?bps = "bitmapplans node"
  have same: "reorder_loop ext ?n 0 ?bps = ?bps"
    using assms(3) by (intro reorder_loop_unchanged) simp
  obtain st' where run: "and_loop ext node ?n 0 (start_state ?bps mem) = Inr st'"
    and st': "plans st' = ?bps" "clauses st' = mem"
      "result st' = Some ((case result (start_state ?bps mem) of None \<Rightarrow> UNIV | Some acc \<Rightarrow> acc)
         \<inter> (\<Inter>j\<in>{0..<?n}. S j))"
    using and_loop_plain [of ?n ext ?bps mem S "start_state ?bps mem" 0 node] assms
    by (auto simp: start_state_def)
  have "result st' = Some (\<Inter>j\<in>{..<?n}. S j)"
    using st'(3) by (simp add: start_state_def atLeast0LessThan)
  then show ?thesis using run st' same
    by (simp add: MultiExecBitmapAnd_def Let_def)
qed

theorem plain_children_intersection_witness:
  "\<exists>log. MultiExecBitmapAnd example_ext
            (example_node [plain_child 1, plain_child 2]) example_mem
     = Inr ({3, 5}, example_node [plain_child 1, plain_child 2], example_mem, log)"
proof -
  have "(\<Inter>j\<in>{..<2::nat}. (if j = 0 then {1, 3, 5, 7} else {3, 5, 9::nat})) = {3, 5}"
    by (auto simp: lessThan_Suc numeral_2_eq_2)
  then show ?thesis
    using plain_children_intersection
            [of "example_node [plain_child 1, plain_child 2]" example_ext
                example_mem "\<lambda>j. if j = 0 then {1, 3, 5, 7} else {3, 5, 9}"]
    by (simp add: example_node_def less_Suc_eq numeral_2_eq_2 example_ext_def example_outs_def
          plain_child_def is_adam_scan_def)
qed

text \<open>
  Claim C3. If the accumulator is empty after some child has been processed, that is,
  if the loop run over the first \<open>k + 1\<close> scheduled children only ends with an empty
  accumulator, then \<^verbatim>\<open>MultiExecBitmapAnd\<close> returns the empty bitmap, in the state in which
  that run ended, and no child scheduled after index \<open>k\<close> is in the log of executed
  children.
\<close>

theorem empty_accumulator_stops:
  assumes "k < nplans node"
    "and_loop ext node (Suc k) 0
       (start_state (reorder_loop ext (nplans node) 0 (bitmapplans node)) mem) = Inr st"
    "result st = Some {}"
  shows "MultiExecBitmapAnd ext node mem
           = Inr ({}, node\<lparr>bitmapplans := plans st\<rparr>, clauses st, executed st) \<and>
         set (executed st) \<subseteq> {..k}"
proof -
  have "and_loop ext node (nplans node) 0
          (start_state (reorder_loop ext (nplans node) 0 (bitmapplans node)) mem) = Inr st"
    using and_loop_break_stable[OF assms(2,3), of "nplans node"] assms(1) by simp
  then have run: "MultiExecBitmapAnd ext node mem
                    = Inr ({}, node\<lparr>bitmapplans := plans st\<rparr>, clauses st, executed st)"
    using assms(3) by (simp add: MultiExecBitmapAnd_def Let_def)
  obtain m where "m \<le> Suc k" "executed st = [0..<m]"
    using and_loop_executed[OF assms(2)] by (auto simp: start_state_def)
  then have "set (executed st) \<subseteq> {..k}" by auto
  then show ?thesis using run by simp
qed

theorem empty_accumulator_stops_witness:
  "MultiExecBitmapAnd example_ext (example_node [plain_child 1, plain_child 3, plain_child 2]) example_mem
     = Inr ({}, example_node [plain_child 1, plain_child 3, plain_child 2], example_mem, [0, 1]) \<and>
   set [0, 1 :: nat] \<subseteq> {..1}"
  using empty_accumulator_stops
          [of 1 "example_node [plain_child 1, plain_child 3, plain_child 2]" example_ext example_mem
              "\<lparr>plans = [plain_child 1, plain_child 3, plain_child 2], clauses = example_mem,
                result = Some {}, no_intersect = False, executed = [0, 1]\<rparr>"]
  by (simp add: example_defs run_defs)

subsection \<open>The errors of MultiExecBitmapAnd\<close>

lemma MultiExecBitmapAnd_NoChildren_iff:
  "MultiExecBitmapAnd ext node mem = Inl NoChildren \<longleftrightarrow> nplans node = 0"
proof (cases "nplans node = 0")
  case True
  then show ?thesis
    by (simp add: MultiExecBitmapAnd_def Let_def and_loop_done start_state_def)
next
  case False
  let ?st0 = "start_state (reorder_loop ext (nplans node) 0 (bitmapplans node)) mem"
  show ?thesis
  proof (cases "and_loop ext node (nplans node) 0 ?st0")
    case (Inl e)
    then have "e = UnrecognizedResult" by (rule and_loop_error)
    then show ?thesis using Inl False by (simp add: MultiExecBitmapAnd_def Let_def)
  next
    case (Inr st')
    then have "result st' \<noteq> None" using and_loop_executed[OF Inr] False by auto
    then show ?thesis using Inr False by (auto simp: MultiExecBitmapAnd_def Let_def)
  qed
qed

lemma MultiExecBitmapAnd_some_child:
  assumes "0 < nplans node"
  shows "MultiExecBitmapAnd ext node mem = Inl UnrecognizedResult \<or>
         (\<exists>r node' mem' log. MultiExecBitmapAnd ext node mem = Inr (r, node', mem', log) \<and> log \<noteq> [])"
proof -
  let ?st0 = "start_state (reorder_loop ext (nplans node) 0 (bitmapplans node)) mem"
  show ?thesis
  proof (cases "and_loop ext node (nplans node) 0 ?st0")
    case (Inl e)
    then have "e = UnrecognizedResult" by (rule and_loop_error)
    then show ?thesis using Inl by (simp add: MultiExecBitmapAnd_def Let_def)
  next
    case (Inr st')
    obtain m where m: "0 < m" "executed st' = executed ?st0 @ [0..<m]" "result st' \<noteq> None"
      using and_loop_executed[OF Inr] assms by auto
    have "executed st' \<noteq> []" using m by (simp add: start_state_def)
    then show ?thesis using Inr m(3) by (auto simp: MultiExecBitmapAnd_def Let_def)
  qed
qed

lemma MultiExecBitmapAnd_bad_child:
  assumes "k < nplans node"
    "and_loop ext node k 0 (start_state (reorder_loop ext (nplans node) 0 (bitmapplans node)) mem)
       = Inr st"
    "result st \<noteq> Some {}"
    "\<forall>S. MultiExecProcNode ext (plans (prepare_subplan ext node k st) ! k)
           (clauses (prepare_subplan ext node k st)) \<noteq> TIDBitmapNode S"
  shows "MultiExecBitmapAnd ext node mem = Inl UnrecognizedResult"
proof -
  have "and_loop ext node (nplans node) 0
          (start_state (reorder_loop ext (nplans node) 0 (bitmapplans node)) mem)
        = and_loop ext node (nplans node) k st"
    using and_loop_split[OF assms(2,3), of "nplans node"] assms(1) by simp
  also have "\<dots> = Inl UnrecognizedResult"
    using and_loop_step_bad[OF assms(1,4)] .
  finally show ?thesis by (simp add: MultiExecBitmapAnd_def Let_def)
qed

lemma MultiExecBitmapAnd_total:
  assumes "0 < nplans node" "\<And>c m. \<exists>S. MultiExecProcNode ext c m = TIDBitmapNode S"
  shows "\<exists>r node' mem' log. MultiExecBitmapAnd ext node mem = Inr (r, node', mem', log) \<and> log \<noteq> []"
proof -
  let ?st0 = "start_state (reorder_loop ext (nplans node) 0 (bitmapplans node)) mem"
  obtain st' where "and_loop ext node (nplans node) 0 ?st0 = Inr st'"
    using and_loop_total[OF assms(2)] by blast
  then have "MultiExecBitmapAnd ext node mem \<noteq> Inl UnrecognizedResult"
    by (simp add: MultiExecBitmapAnd_def Let_def split: option.split)
  then show ?thesis
    using MultiExecBitmapAnd_some_child[OF assms(1), of ext mem] by simp
qed

text \<open>
  Claim C7, as the code has it. \<^verbatim>\<open>ExecInitBitmapAnd\<close> does not reject an empty child list:
  when the flags pass its assertion it returns a node with \<^verbatim>\<open>nplans\<close> children, zero
  included. On that node \<^verbatim>\<open>MultiExecBitmapAnd\<close> fails with \<open>NoChildren\<close> if and only if
  the child list was empty at initialization; with at least one child it runs a child
  and either returns a bitmap or fails with \<open>UnrecognizedResult\<close>; and it fails with
  \<open>UnrecognizedResult\<close> whenever the loop comes to a child (the first \<open>k\<close> children ran
  and did not leave the accumulator empty) that hands back something that is not a
  \<^verbatim>\<open>TIDBitmap\<close>.
\<close>

theorem no_children_rejected_by_execute:
  assumes "eflags \<inter> {EXEC_FLAG_BACKWARD, EXEC_FLAG_MARK} = {}"
  shows "\<exists>node. ExecInitBitmapAnd ExecInitNode plannode eflags = Inr node \<and>
           nplans node = length (bitmapplans_plan plannode) \<and>
           nplans node = length (bitmapplans node) \<and>
           (MultiExecBitmapAnd ext node mem = Inl NoChildren \<longleftrightarrow> bitmapplans_plan plannode = []) \<and>
           (bitmapplans_plan plannode \<noteq> [] \<longrightarrow>
              MultiExecBitmapAnd ext node mem = Inl UnrecognizedResult \<or>
              (\<exists>r node' mem' log.
                  MultiExecBitmapAnd ext node mem = Inr (r, node', mem', log) \<and> log \<noteq> [])) \<and>
           (\<forall>k st. k < nplans node \<longrightarrow>
              and_loop ext node k 0
                (start_state (reorder_loop ext (nplans node) 0 (bitmapplans node)) mem) = Inr st \<longrightarrow>
              result st \<noteq> Some {} \<longrightarrow>
              (\<forall>S. MultiExecProcNode ext (plans (prepare_subplan ext node k st) ! k)
                     (clauses (prepare_subplan ext node k st)) \<noteq> TIDBitmapNode S) \<longrightarrow>
              MultiExecBitmapAnd ext node mem = Inl UnrecognizedResult)"
proof -
  let ?node = "\<lparr>ps_chgParam = {}, adamPlanClause = plan_adamPlanClause plannode,
                bitmapplans = map (\<lambda>initNode. ExecInitNode initNode eflags) (bitmapplans_plan plannode),
                nplans = length (bitmapplans_plan plannode), limit = 0\<rparr>"
  have init: "ExecInitBitmapAnd ExecInitNode plannode eflags = Inr ?node"
    using assms by (simp add: ExecInitBitmapAnd_def)
  have n: "nplans ?node = length (bitmapplans_plan plannode)" "nplans ?node = length (bitmapplans ?node)"
    by simp_all
  have none: "MultiExecBitmapAnd ext ?node mem = Inl NoChildren \<longleftrightarrow> bitmapplans_plan plannode = []"
    using MultiExecBitmapAnd_NoChildren_iff[of ext ?node mem] by simp
  have some: "bitmapplans_plan plannode \<noteq> [] \<longrightarrow>
              MultiExecBitmapAnd ext ?node mem = Inl UnrecognizedResult \<or>
              (\<exists>r node' mem' log.
                  MultiExecBitmapAnd ext ?node mem = Inr (r, node', mem', log) \<and> log \<noteq> [])"
    using MultiExecBitmapAnd_some_child[of ?node ext mem] by simp
  have bad: "\<forall>k st. k < nplans ?node \<longrightarrow>
              and_loop ext ?node k 0
                (start_state (reorder_loop ext (nplans ?node) 0 (bitmapplans ?node)) mem) = Inr st \<longrightarrow>
              result st \<noteq> Some {} \<longrightarrow>
              (\<forall>S. MultiExecProcNode ext (plans (prepare_subplan ext ?node k st) ! k)
                     (clauses (prepare_subplan ext ?node k st)) \<noteq> TIDBitmapNode S) \<longrightarrow>
              MultiExecBitmapAnd ext ?node mem = Inl UnrecognizedResult"
    using MultiExecBitmapAnd_bad_child[of _ ?node ext mem] by blast
  show ?thesis
    using init n none some bad by (intro exI[of _ ?node] conjI)
qed

theorem no_children_rejected_by_execute_witness:
  "MultiExecBitmapAnd example_ext ((example_node [])\<lparr>limit := 0\<rparr>) example_mem = Inl NoChildren \<and>
   MultiExecBitmapAnd example_ext ((example_node [plain_child 1, plain_child 5])\<lparr>limit := 0\<rparr>) example_mem
     = Inl UnrecognizedResult"
proof -
  let ?init = "\<lambda>initNode eflags. plain_child initNode"
  have a: "MultiExecBitmapAnd example_ext ((example_node [])\<lparr>limit := 0\<rparr>) example_mem = Inl NoChildren"
    using no_children_rejected_by_execute
            [of "{}" ?init "\<lparr>bitmapplans_plan = [], plan_adamPlanClause = Some 7\<rparr>"
                example_ext example_mem]
    by (simp add: ExecInitBitmapAnd_def example_node_def)
  let ?node = "(example_node [plain_child 1, plain_child 5])\<lparr>limit := 0\<rparr>"
  let ?st = "\<lparr>plans = [plain_child 1, plain_child 5], clauses = example_mem,
             result = Some {1, 3, 5, 7}, no_intersect = False, executed = [0]\<rparr>"
  have init: "ExecInitBitmapAnd ?init
                \<lparr>bitmapplans_plan = [1, 5], plan_adamPlanClause = Some 7\<rparr> {}
              = Inr ?node"
    by (simp add: ExecInitBitmapAnd_def example_node_def)
  have bad: "\<forall>k st. k < nplans ?node \<longrightarrow>
              and_loop example_ext ?node k 0
                (start_state (reorder_loop example_ext (nplans ?node) 0 (bitmapplans ?node)) example_mem)
                = Inr st \<longrightarrow>
              result st \<noteq> Some {} \<longrightarrow>
              (\<forall>S. MultiExecProcNode example_ext (plans (prepare_subplan example_ext ?node k st) ! k)
                     (clauses (prepare_subplan example_ext ?node k st)) \<noteq> TIDBitmapNode S) \<longrightarrow>
              MultiExecBitmapAnd example_ext ?node example_mem = Inl UnrecognizedResult"
    using no_children_rejected_by_execute
            [of "{}" ?init "\<lparr>bitmapplans_plan = [1, 5], plan_adamPlanClause = Some 7\<rparr>"
                example_ext example_mem]
    unfolding init by simp
  have run: "and_loop example_ext ?node 1 0
               (start_state (reorder_loop example_ext (nplans ?node) 0 (bitmapplans ?node)) example_mem)
             = Inr ?st"
    by (simp add: example_defs run_defs)
  have child: "\<forall>S. MultiExecProcNode example_ext (plans (prepare_subplan example_ext ?node 1 ?st) ! 1)
                 (clauses (prepare_subplan example_ext ?node 1 ?st)) \<noteq> TIDBitmapNode S"
    by (simp add: example_defs run_defs)
  have "1 < nplans ?node" by (simp add: example_node_def)
  moreover have "result ?st \<noteq> Some {}" by simp
  ultimately have b: "MultiExecBitmapAnd example_ext ?node example_mem = Inl UnrecognizedResult"
    using bad run child by blast
  show ?thesis using a b by simp
qed

text \<open>
  Claim C7 as stated fails in its clause that the empty child list is rejected at
  initialization: \<^verbatim>\<open>ExecInitBitmapAnd\<close> on an empty list returns a node, and the error
  comes from \<^verbatim>\<open>MultiExecBitmapAnd\<close>.
\<close>

theorem init_accepts_no_children_counterexample:
  "ExecInitBitmapAnd (\<lambda>initNode eflags. plain_child initNode)
      \<lparr>bitmapplans_plan = [], plan_adamPlanClause = Some 7\<rparr> {}
     = Inr ((example_node [])\<lparr>limit := 0\<rparr>) \<and>
   MultiExecBitmapAnd example_ext ((example_node [])\<lparr>limit := 0\<rparr>) example_mem = Inl NoChildren"
  by (simp add: example_defs run_defs ExecInitBitmapAnd_def)

text \<open>
  When every child hands back a bitmap however it is prepared, the loop ends without
  an error, and its array holds the same children as before.
\<close>

lemma same_child_refl [simp]: "same_child c c"
  by (simp add: same_child_def)

lemma same_child_update [simp]:
  "same_child c (c\<lparr>biss_result := r, adamScanClause := a\<rparr>)"
  by (simp add: same_child_def)

lemma same_child_trans: "same_child c c' \<Longrightarrow> same_child c' c'' \<Longrightarrow> same_child c c''"
  by (simp add: same_child_def)

lemma same_child_exec:
  assumes "same_child c c'"
  shows "c'\<lparr>biss_result := r, adamScanClause := a\<rparr> = c\<lparr>biss_result := r, adamScanClause := a\<rparr>"
proof -
  have "(c'\<lparr>biss_result := None, adamScanClause := None\<rparr>)\<lparr>biss_result := r, adamScanClause := a\<rparr>
          = (c\<lparr>biss_result := None, adamScanClause := None\<rparr>)\<lparr>biss_result := r, adamScanClause := a\<rparr>"
    using assms by (simp only: same_child_def)
  then show ?thesis by simp
qed

lemma prepare_subplan_plans:
  assumes "i < length (plans st)"
  shows "length (plans (prepare_subplan ext node i st)) = length (plans st) \<and>
         (\<forall>j<length (plans st). same_child (plans st ! j) (plans (prepare_subplan ext node i st) ! j))"
proof (cases "is_adam_scan ext (plans st ! i)")
  case False
  then show ?thesis by (simp add: prepare_subplan_plain)
next
  case True
  obtain r a where "plans (prepare_subplan ext node i st)
      = (plans st)[i := (plans st ! i)\<lparr>biss_result := r, adamScanClause := a\<rparr>]"
    using True by (cases "adamPlanClause node") (simp_all add: prepare_subplan_def Let_def)
  then show ?thesis using assms by (simp add: nth_list_update)
qed


lemma and_loop_runs_all:
  assumes "n \<le> length (plans st)"
    "\<And>j r a m. j < n \<Longrightarrow>
       \<exists>S. MultiExecProcNode ext ((plans st ! j)\<lparr>biss_result := r, adamScanClause := a\<rparr>) m
             = TIDBitmapNode S"
  shows "\<exists>st'. and_loop ext node n i st = Inr st' \<and> length (plans st') = length (plans st) \<and>
           (\<forall>j<length (plans st). same_child (plans st ! j) (plans st' ! j))"
  using assms
proof (induction "n - i" arbitrary: i st)
  case 0
  then show ?case by (subst and_loop.simps) simp
next
  case (Suc d)
  then have lt: "i < n" by simp
  have d: "d = n - Suc i" using Suc.hyps(2) by simp
  let ?st1 = "prepare_subplan ext node i st"
  have il: "i < length (plans st)" using lt Suc.prems(1) by simp
  note prep = prepare_subplan_plans[OF il, of ext node]
  have same_i: "same_child (plans st ! i) (plans ?st1 ! i)" using prep il by simp
  have "plans ?st1 ! i = (plans ?st1 ! i)\<lparr>biss_result := biss_result (plans ?st1 ! i),
                              adamScanClause := adamScanClause (plans ?st1 ! i)\<rparr>" by simp
  also have "\<dots> = (plans st ! i)\<lparr>biss_result := biss_result (plans ?st1 ! i),
                              adamScanClause := adamScanClause (plans ?st1 ! i)\<rparr>"
    by (rule same_child_exec[OF same_i])
  finally have eqc: "plans ?st1 ! i = (plans st ! i)\<lparr>biss_result := biss_result (plans ?st1 ! i),
                              adamScanClause := adamScanClause (plans ?st1 ! i)\<rparr>" .
  obtain S where execS: "MultiExecProcNode ext
        ((plans st ! i)\<lparr>biss_result := biss_result (plans ?st1 ! i),
                          adamScanClause := adamScanClause (plans ?st1 ! i)\<rparr>) (clauses ?st1)
      = TIDBitmapNode S"
    using Suc.prems(2)[OF lt, where r = "biss_result (plans ?st1 ! i)"
        and a = "adamScanClause (plans ?st1 ! i)" and m = "clauses ?st1"] by blast
  have S: "MultiExecProcNode ext (plans ?st1 ! i) (clauses ?st1) = TIDBitmapNode S"
    by (subst eqc) (rule execS)
  let ?r = "merge_subresult ext ?st1 i S"
  let ?st2 = "?st1\<lparr>result := Some ?r, executed := executed ?st1 @ [i]\<rparr>"
  have step: "and_loop ext node n i st
             = (if tbm_is_empty ?r then Inr ?st2 else and_loop ext node n (Suc i) ?st2)"
    using and_loop_step[OF lt S] by (simp add: Let_def)
  have len2: "length (plans ?st2) = length (plans st)" using prep by simp
  have same2: "\<forall>j<length (plans st). same_child (plans st ! j) (plans ?st2 ! j)"
    using prep by simp
  show ?case
  proof (cases "tbm_is_empty ?r")
    case True
    then show ?thesis using step len2 same2 by simp
  next
    case False
    have valid2: "\<exists>S. MultiExecProcNode ext ((plans ?st2 ! j)\<lparr>biss_result := r, adamScanClause := a\<rparr>) m
                     = TIDBitmapNode S" if "j < n" for j r a m
    proof -
      have "j < length (plans st)" using that Suc.prems(1) by simp
      then have "same_child (plans st ! j) (plans ?st2 ! j)" using same2 by simp
      then have "(plans ?st2 ! j)\<lparr>biss_result := r, adamScanClause := a\<rparr>
                   = (plans st ! j)\<lparr>biss_result := r, adamScanClause := a\<rparr>"
        by (rule same_child_exec)
      then show ?thesis
        using Suc.prems(2)[OF that, where r = r and a = a and m = m] by (simp only:)
    qed
    have "n \<le> length (plans ?st2)" using len2 Suc.prems(1) by simp
    then obtain st' where st': "and_loop ext node n (Suc i) ?st2 = Inr st'"
      "length (plans st') = length (plans ?st2)"
      "\<forall>j<length (plans ?st2). same_child (plans ?st2 ! j) (plans st' ! j)"
      using Suc.hyps(1)[OF d, of ?st2] valid2 by blast
    have "\<forall>j<length (plans st). same_child (plans st ! j) (plans st' ! j)"
    proof (intro allI impI)
      fix j assume j: "j < length (plans st)"
      then have "same_child (plans st ! j) (plans ?st2 ! j)" using same2 by blast
      moreover have "same_child (plans ?st2 ! j) (plans st' ! j)" using st'(3) j len2 by simp
      ultimately show "same_child (plans st ! j) (plans st' ! j)" by (rule same_child_trans)
    qed
    then show ?thesis using step False st' len2 by simp
  qed
qed

text \<open>
  Claim C9, as the code has it. More than one ADAM scan among the children is not
  detected, neither by \<^verbatim>\<open>ExecInitBitmapAnd\<close> nor by \<^verbatim>\<open>MultiExecBitmapAnd\<close>. Initialization
  returns the node. The reordering pass goes through the indices in turn and exchanges
  every ADAM scan that it finds at an index other than the last (not the first match
  only) with the entry that is last at that moment; this permutes the children and
  leaves an ADAM scan in the last slot. When every child of the node hands back a
  bitmap, whatever accumulator and clause it was handed, \<^verbatim>\<open>MultiExecBitmapAnd\<close> runs the
  children in the order of the reordered array, from index 0 on without a gap, and
  returns a bitmap; the array it leaves is the reordered one but for the two fields
  that it writes in an ADAM scan.
\<close>

theorem several_probes_not_detected:
  assumes "eflags \<inter> {EXEC_FLAG_BACKWARD, EXEC_FLAG_MARK} = {}"
    "bps = map (\<lambda>initNode. ExecInitNode initNode eflags) (bitmapplans_plan plannode)"
    "1 < length (filter (is_adam_scan ext) bps)"
    "\<forall>c\<in>set bps. \<forall>r a m.
        \<exists>S. MultiExecProcNode ext (c\<lparr>biss_result := r, adamScanClause := a\<rparr>) m = TIDBitmapNode S"
  shows "\<exists>node res node' mem' log.
           ExecInitBitmapAnd ExecInitNode plannode eflags = Inr node \<and>
           bitmapplans node = bps \<and> nplans node = length bps \<and>
           reorder_loop ext (length bps) 0 bps
             = fold (exchange_with_last ext (length bps)) [0..<length bps] bps \<and>
           mset (reorder_loop ext (length bps) 0 bps) = mset bps \<and>
           is_adam_scan ext (last (reorder_loop ext (length bps) 0 bps)) \<and>
           MultiExecBitmapAnd ext node mem = Inr (res, node', mem', log) \<and>
           log \<noteq> [] \<and> log = [0..<length log] \<and>
           list_all2 same_child (reorder_loop ext (length bps) 0 bps) (bitmapplans node')"
proof -
  let ?n = "length bps"
  let ?node = "\<lparr>ps_chgParam = {}, adamPlanClause = plan_adamPlanClause plannode,
                bitmapplans = bps, nplans = ?n, limit = 0\<rparr>"
  let ?bps' = "reorder_loop ext ?n 0 bps"
  let ?st0 = "start_state ?bps' mem"
  have init: "ExecInitBitmapAnd ExecInitNode plannode eflags = Inr ?node"
    using assms(1,2) by (simp add: ExecInitBitmapAnd_def)
  have fold: "?bps' = fold (exchange_with_last ext ?n) [0..<?n] bps"
    by (rule reorder_loop_fold)
  have perm: "mset ?bps' = mset bps"
    by (rule reorder_loop_mset) simp
  then have sets: "set ?bps' = set bps" by (rule mset_eq_setD)
  have "filter (is_adam_scan ext) bps \<noteq> []" using assms(3) by auto
  then obtain c where "c \<in> set bps" "is_adam_scan ext c"
    by (metis filter_False)
  then obtain j where j: "j < ?n" "is_adam_scan ext (bps ! j)"
    by (auto simp: in_set_conv_nth)
  then have pos: "0 < ?n" by (cases bps) simp_all
  have "is_adam_scan ext (?bps' ! (?n - 1))"
    using reorder_loop_adam_last[of ?n bps 0 ext] j by blast
  moreover have "length ?bps' = ?n" by simp
  then have "?bps' \<noteq> []" using pos by (metis length_0_conv less_numeral_extra(3))
  then have "last ?bps' = ?bps' ! (?n - 1)" by (simp add: last_conv_nth)
  ultimately have last: "is_adam_scan ext (last ?bps')"
    by (simp only:)
  have valid: "\<exists>S. MultiExecProcNode ext ((plans ?st0 ! k)\<lparr>biss_result := r, adamScanClause := a\<rparr>) m
                  = TIDBitmapNode S" if "k < ?n" for k r a m
  proof -
    have "?bps' ! k \<in> set ?bps'" using that by simp
    then have "?bps' ! k \<in> set bps" using sets by simp
    then show ?thesis using assms(4) by (simp add: start_state_def)
  qed
  have "?n \<le> length (plans ?st0)" by (simp add: start_state_def)
  then obtain st' where run: "and_loop ext ?node ?n 0 ?st0 = Inr st'"
    and len: "length (plans st') = length (plans ?st0)"
    and same: "\<forall>k<length (plans ?st0). same_child (plans ?st0 ! k) (plans st' ! k)"
    using and_loop_runs_all[of ?n ?st0 ext ?node 0] valid by blast
  obtain m where m: "0 < m" "executed st' = [0..<m]" "result st' \<noteq> None"
    using and_loop_executed[OF run] pos by (auto simp: start_state_def)
  then obtain res where res: "result st' = Some res" by auto
  have exec: "MultiExecBitmapAnd ext ?node mem
                = Inr (res, ?node\<lparr>bitmapplans := plans st'\<rparr>, clauses st', [0..<m])"
    using run res m(2) by (simp add: MultiExecBitmapAnd_def Let_def)
  have all2: "list_all2 same_child ?bps' (plans st')"
    using len same by (simp add: list_all2_conv_all_nth start_state_def)
  have log: "[0..<m] \<noteq> []" "[0..<m] = [0..<length [0..<m]]" using m(1) by simp_all
  show ?thesis
    using init fold perm last exec log all2
    by (intro exI[of _ ?node] exI[of _ res] exI[of _ "?node\<lparr>bitmapplans := plans st'\<rparr>"]
          exI[of _ "clauses st'"] exI[of _ "[0..<m]"]) simp
qed

theorem several_probes_not_detected_witness:
  "\<exists>res node' mem' log.
      ExecInitBitmapAnd (\<lambda>initNode eflags. adam_child initNode)
         \<lparr>bitmapplans_plan = [0, 6], plan_adamPlanClause = Some 7\<rparr> {}
        = Inr ((example_node [adam_child 0, adam_child 6])\<lparr>limit := 0\<rparr>) \<and>
      reorder_loop example_ext 2 0 [adam_child 0, adam_child 6] = [adam_child 6, adam_child 0] \<and>
      MultiExecBitmapAnd example_ext ((example_node [adam_child 0, adam_child 6])\<lparr>limit := 0\<rparr>)
         example_mem = Inr (res, node', mem', log) \<and>
      log \<noteq> [] \<and> log = [0..<length log] \<and>
      list_all2 same_child [adam_child 6, adam_child 0] (bitmapplans node')"
proof -
  have init: "ExecInitBitmapAnd (\<lambda>initNode eflags. adam_child initNode)
         \<lparr>bitmapplans_plan = [0, 6], plan_adamPlanClause = Some 7\<rparr> {}
        = Inr ((example_node [adam_child 0, adam_child 6])\<lparr>limit := 0\<rparr>)"
    by (simp add: ExecInitBitmapAnd_def example_node_def)
  have valid: "\<forall>c\<in>set [adam_child 0, adam_child 6]. \<forall>r a m.
        \<exists>S. MultiExecProcNode example_ext (c\<lparr>biss_result := r, adamScanClause := a\<rparr>) m
              = TIDBitmapNode S"
    by (simp add: example_defs)
  have two: "1 < length (filter (is_adam_scan example_ext) [adam_child 0, adam_child 6])"
    by simp
  have reo: "reorder_loop example_ext (Suc (Suc 0)) 0 [adam_child 0, adam_child 6]
               = [adam_child 6, adam_child 0]"
    by (simp add: reorder_loop.simps Let_def)
  show ?thesis
    using several_probes_not_detected
            [of "{}" "[adam_child 0, adam_child 6]" "\<lambda>initNode eflags. adam_child initNode"
                "\<lparr>bitmapplans_plan = [0, 6], plan_adamPlanClause = Some 7\<rparr>" example_ext example_mem,
             OF _ _ two valid]
    unfolding init by (simp add: reo numeral_2_eq_2 exchange_with_last_def)
qed

text \<open>
  Claim C9 as stated fails: with the two ADAM scans 0 and 6 initialization succeeds,
  the reordering loop exchanges them silently, both are run (scan 6 first, as a sole
  scan would be, then scan 0 with the node's limit), and the bitmap of scan 0 is
  returned.
\<close>

theorem two_probes_run_counterexample:
  "ExecInitBitmapAnd (\<lambda>initNode eflags. adam_child initNode)
      \<lparr>bitmapplans_plan = [0, 6], plan_adamPlanClause = Some 7\<rparr> {}
     = Inr ((example_node [adam_child 0, adam_child 6])\<lparr>limit := 0\<rparr>) \<and>
   MultiExecBitmapAnd example_ext ((example_node [adam_child 0, adam_child 6])\<lparr>limit := 0\<rparr>)
      example_mem
     = Inr ({4, 8},
            (example_node
               [(adam_child 6)\<lparr>biss_result := Some {}, adamScanClause := Some 7\<rparr>,
                (adam_child 0)\<lparr>biss_result := Some {4, 6}, adamScanClause := Some 7\<rparr>])
              \<lparr>limit := 0\<rparr>,
            example_mem(7 := \<lparr>check_tid = True, nn_limit = 0\<rparr>), [0, 1])"
  by (simp add: example_defs run_defs ExecInitBitmapAnd_def)

subsection \<open>ADAM scans in the loop\<close>

text \<open>What the preparation does to an ADAM scan, with and without a clause in the plan.\<close>

lemma prepare_subplan_adam_clause:
  assumes "is_adam_scan ext (plans st ! i)" "adamPlanClause node = Some a"
  shows "prepare_subplan ext node i st =
     (let result1 = (case result st of None \<Rightarrow> {} | Some r \<Rightarrow> r) in
      st\<lparr>result := Some result1,
         plans := (plans st)[i := (plans st ! i)\<lparr>biss_result := Some result1, adamScanClause := Some a\<rparr>],
         clauses := (clauses st)(a := (if i \<noteq> 0
                        then (clauses st a)\<lparr>check_tid := True, nn_limit := limit node\<rparr>
                        else (clauses st a)\<lparr>nn_limit := - 1, check_tid := False\<rparr>)),
         no_intersect := True\<rparr>)"
  using assms by (simp add: prepare_subplan_def Let_def tbm_create_def split: option.split)


text \<open>
  Claim C6. When the ADAM scan is the only child and the plan has a clause, the scan
  runs at index 0 with a new empty bitmap in \<^verbatim>\<open>biss_result\<close>; the clause ends with
  \<^verbatim>\<open>nn_limit\<close> \<open>= -1\<close> and \<^verbatim>\<open>check_tid\<close> false, and \<^verbatim>\<open>MultiExecBitmapAnd\<close> returns the
  bitmap that the scan handed back.
\<close>

theorem sole_probe_unlimited:
  assumes "nplans node = 1" "bitmapplans node = [c]" "is_adam_scan ext c"
    "adamPlanClause node = Some a"
    "MultiExecProcNode ext (c\<lparr>biss_result := Some {}, adamScanClause := Some a\<rparr>)
       (mem(a := (mem a)\<lparr>nn_limit := - 1, check_tid := False\<rparr>)) = TIDBitmapNode R"
  shows "\<exists>mem'. MultiExecBitmapAnd ext node mem
           = Inr (R, node\<lparr>bitmapplans := [c\<lparr>biss_result := Some {}, adamScanClause := Some a\<rparr>]\<rparr>,
                  mem', [0])
         \<and> nn_limit (mem' a) = - 1 \<and> check_tid (mem' a) = False"
proof -
  let ?st0 = "start_state [c] mem"
  let ?c' = "c\<lparr>biss_result := Some {}, adamScanClause := Some a\<rparr>"
  let ?mem' = "mem(a := (mem a)\<lparr>nn_limit := - 1, check_tid := False\<rparr>)"
  let ?st1 = "?st0\<lparr>plans := [?c'], clauses := ?mem', result := Some {}, no_intersect := True\<rparr>"
  have same: "reorder_loop ext 1 0 [c] = [c]"
    by (rule reorder_loop_unchanged) simp
  have prep: "prepare_subplan ext node 0 ?st0 = ?st1"
    using prepare_subplan_adam_clause[of ext ?st0 0 node a] assms
    by (simp add: start_state_def)
  have ex: "MultiExecProcNode ext (plans (prepare_subplan ext node 0 ?st0) ! 0)
              (clauses (prepare_subplan ext node 0 ?st0)) = TIDBitmapNode R"
    unfolding prep using assms(5) by (simp add: start_state_def)
  have "and_loop ext node 1 0 ?st0 = Inr (?st1\<lparr>result := Some R, executed := [0]\<rparr>)"
    using and_loop_step[of 0 1 ext node ?st0 R, OF _ ex] unfolding prep
    by (simp add: Let_def and_loop_done start_state_def merge_subresult_def)
  then show ?thesis using assms(1,2) same
    by (intro exI[of _ ?mem']) (simp add: MultiExecBitmapAnd_def Let_def start_state_def)
qed

theorem sole_probe_unlimited_witness:
  "\<exists>mem'. MultiExecBitmapAnd example_ext (example_node [adam_child 0]) example_mem
      = Inr ({4, 8},
             (example_node [adam_child 0])
               \<lparr>bitmapplans := [(adam_child 0)\<lparr>biss_result := Some {}, adamScanClause := Some 7\<rparr>]\<rparr>,
             mem', [0]) \<and>
     nn_limit (mem' 7) = - 1 \<and> check_tid (mem' 7) = False"
  using sole_probe_unlimited
          [of "example_node [adam_child 0]" "adam_child 0" example_ext 7 example_mem "{4, 8}"]
  by (simp add: example_defs)




text \<open>
  Claim C1, as the code has it. Let the node have more than one child, exactly one of
  them an ADAM scan (at index \<open>p\<close>), let the plan have a clause, and let the other
  children hand back bitmaps whose intersection \<open>acc\<close> is not empty, so that the loop
  comes to the scan. Then the scan runs last, with \<open>acc\<close> in \<^verbatim>\<open>biss_result\<close>; the clause
  ends with \<^verbatim>\<open>nn_limit\<close> equal to the node's \<^verbatim>\<open>limit\<close> and \<^verbatim>\<open>check_tid\<close> true; and
  \<^verbatim>\<open>MultiExecBitmapAnd\<close> returns the bitmap that the scan handed back, not its
  intersection with \<open>acc\<close>.
\<close>

theorem probe_substitutes_after_others:
  assumes len: "nplans node = length (bitmapplans node)" and n: "1 < nplans node"
    and p: "p < nplans node"
    and probe: "is_adam_scan ext (bitmapplans node ! p)"
    and plain: "\<forall>j<nplans node. j \<noteq> p \<longrightarrow>
                  \<not> is_adam_scan ext (bitmapplans node ! j) \<and>
                  MultiExecProcNode ext (bitmapplans node ! j) mem = TIDBitmapNode (S j)"
    and clause: "adamPlanClause node = Some a"
    and acc: "acc = (\<Inter>j\<in>{..<nplans node} - {p}. S j)" "acc \<noteq> {}"
    and out: "MultiExecProcNode ext
                ((bitmapplans node ! p)\<lparr>biss_result := Some acc, adamScanClause := Some a\<rparr>)
                (mem(a := (mem a)\<lparr>check_tid := True, nn_limit := limit node\<rparr>))
              = TIDBitmapNode R"
  shows "\<exists>node' mem' log. MultiExecBitmapAnd ext node mem = Inr (R, node', mem', log) \<and>
           nn_limit (mem' a) = limit node \<and> check_tid (mem' a) = True \<and>
           bitmapplans node' ! (nplans node - 1)
             = (bitmapplans node ! p)\<lparr>biss_result := Some acc, adamScanClause := Some a\<rparr>"
proof -
  let ?n = "nplans node"
  let ?bps = "bitmapplans node"
  let ?bps' = "(?bps[?n - 1 := ?bps ! p])[p := ?bps ! (?n - 1)]"
  let ?S' = "\<lambda>j. if j = p then S (?n - 1) else S j"
  let ?st0 = "start_state ?bps' mem"
  let ?c' = "(?bps ! p)\<lparr>biss_result := Some acc, adamScanClause := Some a\<rparr>"
  let ?mem' = "mem(a := (mem a)\<lparr>check_tid := True, nn_limit := limit node\<rparr>)"
  have reorder: "reorder_loop ext ?n 0 ?bps = ?bps'"
    using len p probe plain by (intro reorder_loop_one) auto
  have nth': "?bps' ! j = (if j = p then ?bps ! (?n - 1) else ?bps ! j)" if "j < ?n - 1" for j
    using that len p by (simp add: nth_list_update)
  have last': "?bps' ! (?n - 1) = ?bps ! p"
    using len p by (cases "p = ?n - 1") (simp_all add: nth_list_update)
  have plain1: "\<not> is_adam_scan ext (?bps' ! j)" if "j < ?n - 1" for j
    using that plain nth'[OF that] by (cases "j = p") auto
  have plain2: "MultiExecProcNode ext (?bps' ! j) mem = TIDBitmapNode (?S' j)" if "j < ?n - 1" for j
    using that plain nth'[OF that] by (cases "j = p") auto
  obtain st1 where run1: "and_loop ext node (?n - 1) 0 ?st0 = Inr st1"
    and st1: "plans st1 = ?bps'" "clauses st1 = mem"
      "result st1 = Some ((case result ?st0 of None \<Rightarrow> UNIV | Some acc \<Rightarrow> acc)
                          \<inter> (\<Inter>j\<in>{0..<?n - 1}. ?S' j))"
    using and_loop_plain [of "?n - 1" ext ?bps' mem ?S' ?st0 0 node] plain1 plain2 n
    by (auto simp: start_state_def)
  have img: "?S' ` {0..<?n - 1} = S ` ({..<?n} - {p})"
  proof (intro set_eqI iffI)
    fix X assume "X \<in> ?S' ` {0..<?n - 1}"
    then obtain j where j: "j < ?n - 1" "X = ?S' j" by auto
    show "X \<in> S ` ({..<?n} - {p})"
    proof (cases "j = p")
      case True
      then have "?n - 1 \<in> {..<?n} - {p}" using j n by auto
      then show ?thesis using j True by auto
    next
      case False
      then have "j \<in> {..<?n} - {p}" using j by auto
      then show ?thesis using j False by auto
    qed
  next
    fix X assume "X \<in> S ` ({..<?n} - {p})"
    then obtain k where k: "k < ?n" "k \<noteq> p" "X = S k" by auto
    show "X \<in> ?S' ` {0..<?n - 1}"
    proof (cases "k = ?n - 1")
      case True
      then have "p \<in> {0..<?n - 1}" using p k by auto
      moreover have "?S' p = X" using k True by simp
      ultimately show ?thesis by blast
    next
      case False
      then have "k \<in> {0..<?n - 1}" using k by auto
      moreover have "?S' k = X" using k by simp
      ultimately show ?thesis by blast
    qed
  qed
  have inter: "(\<Inter>j\<in>{0..<?n - 1}. ?S' j) = acc"
    by (simp only: img acc(1))
  have r0: "result ?st0 = None" by (simp add: start_state_def)
  have res1: "result st1 = Some acc"
    using st1(3) unfolding inter r0 by simp
  have split: "and_loop ext node ?n 0 ?st0 = and_loop ext node ?n (?n - 1) st1"
    using and_loop_split[OF run1, of ?n] res1 acc(2) by simp
  have adam: "is_adam_scan ext (plans st1 ! (?n - 1))"
    using st1(1) last' probe by simp
  have prep: "prepare_subplan ext node (?n - 1) st1 =
      st1\<lparr>result := Some acc, plans := ?bps'[?n - 1 := ?c'], clauses := ?mem', no_intersect := True\<rparr>"
    using prepare_subplan_adam_clause[OF adam clause] n res1 st1(1,2) last'
    by (simp add: Let_def)
  have ex: "MultiExecProcNode ext (plans (prepare_subplan ext node (?n - 1) st1) ! (?n - 1))
              (clauses (prepare_subplan ext node (?n - 1) st1)) = TIDBitmapNode R"
    unfolding prep using out len n by simp
  have final: "and_loop ext node ?n (?n - 1) st1 =
      Inr (st1\<lparr>result := Some R, plans := ?bps'[?n - 1 := ?c'], clauses := ?mem',
               no_intersect := True, executed := executed st1 @ [?n - 1]\<rparr>)"
    using and_loop_step[of "?n - 1" ?n ext node st1 R, OF _ ex] n unfolding prep
    by (simp add: Let_def and_loop_done merge_subresult_def)
  show ?thesis
    using reorder split final len n
    by (simp add: MultiExecBitmapAnd_def Let_def)
qed

theorem probe_substitutes_after_others_witness:
  "\<exists>node' mem' log.
      MultiExecBitmapAnd example_ext (example_node [adam_child 0, plain_child 4]) example_mem
        = Inr ({4, 8}, node', mem', log) \<and>
      nn_limit (mem' 7) = 10 \<and> check_tid (mem' 7) = True \<and>
      bitmapplans node' ! 1 = (adam_child 0)\<lparr>biss_result := Some {2, 4, 6}, adamScanClause := Some 7\<rparr>"
proof -
  have "(\<Inter>j\<in>{..<2::nat} - {0}. (if j = 1 then {2, 4, 6} else {})) = {2, 4, 6::nat}"
    by (auto simp: lessThan_Suc numeral_2_eq_2)
  then show ?thesis
  using probe_substitutes_after_others
          [of "example_node [adam_child 0, plain_child 4]" 0 example_ext example_mem
              "\<lambda>j. if j = 1 then {2, 4, 6} else {}" 7 "{2, 4, 6}" "{4, 8}"]
  by (simp add: example_defs less_Suc_eq numeral_2_eq_2)
qed

text \<open>
  Claim C1 as stated fails when the other children leave an empty accumulator: the
  loop stops before the ADAM scan, the clause stays as it was (\<^verbatim>\<open>nn_limit\<close> 0, not the
  limit 10) and the empty bitmap is returned, not the scan's {4, 8}.
\<close>

theorem probe_skipped_after_empty_counterexample:
  "MultiExecBitmapAnd example_ext (example_node [adam_child 0, plain_child 3]) example_mem
     = Inr ({}, example_node [plain_child 3, adam_child 0], example_mem, [0]) \<and>
   nn_limit (example_mem 7) \<noteq> limit (example_node [adam_child 0, plain_child 3]) \<and>
   MultiExecProcNode example_ext (adam_child 0) example_mem = TIDBitmapNode {4, 8}"
  by (simp add: example_defs run_defs)

subsection \<open>ExecReScanBitmapAnd\<close>

text \<open>What the loop of ExecReScanBitmapAnd does to one child (lines 264-272).\<close>

lemma rescan_loop_spec:
  assumes "rescan_loop ext node i bps rescanned = (bps', rescanned')"
  shows "length bps' = length bps \<and>
         (\<forall>j<length bps. bps' ! j =
            (if j < i \<or> nplans node \<le> j then bps ! j
             else if chgParam (signal_chgParam ext node (bps ! j)) = {}
                  then ExecReScan ext (signal_chgParam ext node (bps ! j))
                  else signal_chgParam ext node (bps ! j))) \<and>
         rescanned' = rescanned @
            filter (\<lambda>j. chgParam (signal_chgParam ext node (bps ! j)) = {}) [i..<nplans node]"
  using assms
proof (induction "nplans node - i" arbitrary: i bps rescanned)
  case 0
  then show ?case by (subst (asm) rescan_loop.simps) auto
next
  case (Suc d)
  then have lt: "i < nplans node" by simp
  have d: "d = nplans node - Suc i" using Suc.hyps(2) by simp
  let ?sub = "signal_chgParam ext node (bps ! i)"
  let ?x = "if chgParam ?sub = {} then ExecReScan ext ?sub else ?sub"
  let ?log = "if chgParam ?sub = {} then rescanned @ [i] else rescanned"
  have step: "rescan_loop ext node i bps rescanned = rescan_loop ext node (Suc i) (bps[i := ?x]) ?log"
    using lt by (subst rescan_loop.simps) (simp add: Let_def)
  then have rec: "rescan_loop ext node (Suc i) (bps[i := ?x]) ?log = (bps', rescanned')"
    using Suc.prems by simp
  note IH = Suc.hyps(1)[OF d rec]
  have len: "length bps' = length bps" using IH by simp
  have nth: "bps' ! j =
            (if j < i \<or> nplans node \<le> j then bps ! j
             else if chgParam (signal_chgParam ext node (bps ! j)) = {}
                  then ExecReScan ext (signal_chgParam ext node (bps ! j))
                  else signal_chgParam ext node (bps ! j))" if "j < length bps" for j
  proof -
    have "bps' ! j =
            (if j < Suc i \<or> nplans node \<le> j then bps[i := ?x] ! j
             else if chgParam (signal_chgParam ext node (bps[i := ?x] ! j)) = {}
                  then ExecReScan ext (signal_chgParam ext node (bps[i := ?x] ! j))
                  else signal_chgParam ext node (bps[i := ?x] ! j))"
      using IH that by simp
    then show ?thesis using that lt
      by (cases "j = i") (simp_all add: nth_list_update less_Suc_eq)
  qed
  have "filter (\<lambda>j. chgParam (signal_chgParam ext node (bps[i := ?x] ! j)) = {}) [Suc i..<nplans node]
          = filter (\<lambda>j. chgParam (signal_chgParam ext node (bps ! j)) = {}) [Suc i..<nplans node]"
    by (rule filter_cong) auto
  moreover have "[i..<nplans node] = i # [Suc i..<nplans node]"
    using lt by (simp add: upt_conv_Cons)
  ultimately have log: "rescanned' = rescanned @
            filter (\<lambda>j. chgParam (signal_chgParam ext node (bps ! j)) = {}) [i..<nplans node]"
    using IH by simp
  show ?case using len nth log by blast
qed

lemma count_list_filter_upt:
  "count_list (filter P [a..<b]) i = (if a \<le> i \<and> i < b \<and> P i then 1 else 0)"
  by (induction b) auto

text \<open>
  Claim C8. For every node and every child \<open>i\<close>: when the node's pending set is not
  empty, \<^verbatim>\<open>UpdateChangedParamSet\<close> is called on the child with that set (and with the
  merge of the spec the child's pending set becomes the union, which is not empty);
  when it is empty the child is left as it is. A child whose pending set is empty
  after this is rescanned by this call, exactly once; a child whose pending set is
  not empty is not rescanned by this call.
\<close>

theorem rescan_signals_then_rescans_idle_children:
  assumes "nplans node = length (bitmapplans node)" "i < nplans node"
    "ExecReScanBitmapAnd ext node = (node', rescanned)"
    "sub = signal_chgParam ext node (bitmapplans node ! i)"
  shows "(ps_chgParam node \<noteq> {} \<longrightarrow>
            sub = UpdateChangedParamSet ext (bitmapplans node ! i) (ps_chgParam node)) \<and>
         (ps_chgParam node = {} \<longrightarrow> sub = bitmapplans node ! i) \<and>
         (chgParam sub = {} \<longrightarrow>
            bitmapplans node' ! i = ExecReScan ext sub \<and> count_list rescanned i = 1) \<and>
         (chgParam sub \<noteq> {} \<longrightarrow>
            bitmapplans node' ! i = sub \<and> count_list rescanned i = 0) \<and>
         (UpdateChangedParamSet ext = merge_chgParam \<longrightarrow> ps_chgParam node \<noteq> {} \<longrightarrow>
            chgParam (bitmapplans node' ! i) = chgParam (bitmapplans node ! i) \<union> ps_chgParam node \<and>
            count_list rescanned i = 0)"
proof -
  let ?bps = "bitmapplans node"
  let ?g = "\<lambda>j. chgParam (signal_chgParam ext node (?bps ! j)) = {}"
  obtain bps' where loop: "rescan_loop ext node 0 ?bps [] = (bps', rescanned)"
    and node': "node' = node\<lparr>bitmapplans := bps'\<rparr>"
    using assms(3) by (auto simp: ExecReScanBitmapAnd_def split: prod.splits)
  have spec: "bps' ! i = (if chgParam sub = {} then ExecReScan ext sub else sub)"
      "rescanned = filter ?g [0..<nplans node]"
    using rescan_loop_spec[OF loop] assms(1,2,4) by simp_all
  have "count_list (filter ?g [0..<nplans node]) i = (if ?g i then 1 else 0)"
    using assms(2) by (simp add: count_list_filter_upt)
  then have cnt: "count_list rescanned i = (if chgParam sub = {} then 1 else 0)"
    using spec(2) assms(4) by simp
  have merged: "chgParam sub = chgParam (?bps ! i) \<union> ps_chgParam node"
    if "UpdateChangedParamSet ext = merge_chgParam" "ps_chgParam node \<noteq> {}"
    using that assms(4) by (simp add: signal_chgParam_def merge_chgParam_def)
  show ?thesis
    using spec(1) cnt merged assms(4) node'
    by (auto simp: signal_chgParam_def)
qed

theorem rescan_signals_then_rescans_idle_children_witness:
  "ExecReScanBitmapAnd example_ext
      (example_node [plain_child 1, (plain_child 2)\<lparr>chgParam := {5}\<rparr>])
     = (example_node [plain_child 1, (plain_child 2)\<lparr>chgParam := {5}\<rparr>], [0]) \<and>
   ExecReScan example_ext (plain_child 1) = plain_child 1 \<and>
   count_list [0 :: nat] 0 = 1 \<and> count_list [0 :: nat] 1 = 0 \<and>
   ExecReScanBitmapAnd example_ext
      ((example_node [plain_child 1, (plain_child 2)\<lparr>chgParam := {5}\<rparr>])\<lparr>ps_chgParam := {3}\<rparr>)
     = ((example_node [(plain_child 1)\<lparr>chgParam := {3}\<rparr>, (plain_child 2)\<lparr>chgParam := {5, 3}\<rparr>])
          \<lparr>ps_chgParam := {3}\<rparr>, [])"
proof -
  let ?node = "example_node [plain_child 1, (plain_child 2)\<lparr>chgParam := {5}\<rparr>]"
  let ?node3 = "?node\<lparr>ps_chgParam := {3}\<rparr>"
  let ?node3' = "(example_node [(plain_child 1)\<lparr>chgParam := {3}\<rparr>,
                                (plain_child 2)\<lparr>chgParam := {5, 3}\<rparr>])\<lparr>ps_chgParam := {3}\<rparr>"
  have run: "ExecReScanBitmapAnd example_ext ?node = (?node, [0])"
    by (simp add: ExecReScanBitmapAnd_def rescan_loop.simps signal_chgParam_def Let_def example_defs)
  have run3: "ExecReScanBitmapAnd example_ext ?node3 = (?node3', [])"
    by (simp add: ExecReScanBitmapAnd_def rescan_loop.simps signal_chgParam_def Let_def example_defs
          merge_chgParam_def insert_commute)
  have "chgParam (plain_child 1) = {} \<longrightarrow>
          bitmapplans ?node ! 0 = ExecReScan example_ext (plain_child 1) \<and> count_list [0 :: nat] 0 = 1"
    using rescan_signals_then_rescans_idle_children [of ?node 0 example_ext ?node "[0]" "plain_child 1"] run
    by (simp add: example_node_def signal_chgParam_def)
  moreover have "chgParam ((plain_child 2)\<lparr>chgParam := {5}\<rparr>) \<noteq> {} \<longrightarrow>
          bitmapplans ?node ! 1 = (plain_child 2)\<lparr>chgParam := {5}\<rparr> \<and> count_list [0 :: nat] 1 = 0"
    using rescan_signals_then_rescans_idle_children
            [of ?node 1 example_ext ?node "[0]" "(plain_child 2)\<lparr>chgParam := {5}\<rparr>"] run
    by (simp add: example_node_def signal_chgParam_def)
  moreover have "chgParam (bitmapplans ?node3' ! 1) = {5} \<union> {3} \<and> count_list ([] :: nat list) 1 = 0"
    using rescan_signals_then_rescans_idle_children
            [of ?node3 1 example_ext ?node3' "[]"
                "signal_chgParam example_ext ?node3 (bitmapplans ?node3 ! 1)"] run3
    by (simp add: example_node_def example_ext_def)
  ultimately show ?thesis using run run3
    by (simp add: example_node_def plain_child_def insert_commute)
qed

end
